theory Spec2Isabelle
  imports Main
begin

section \<open>Python string primitives used by the wrappers\<close>

text \<open>
  A string is a list of characters, and a character is a code point below 256 (\<open>of_char\<close>
  gives it): the strings of the model are the Python strings over the Latin-1 range, and a
  Python string with a code point above 255 has no counterpart.  On this range the
  predicates below are Python's own: \<open>is_space\<close> is \<open>str.isspace\<close>, the set that
  \<open>str.strip()\<close>, \<open>str.split()\<close> and \<open>\s\<close> use; \<open>is_word\<close> is \<open>\w\<close>, which is
  \<open>str.isalnum\<close> or the underscore; \<open>is_lower\<close> and \<open>is_upper\<close> are \<open>str.islower\<close>
  and \<open>str.isupper\<close> of a single character; \<open>is_ident_start\<close> and \<open>is_ident_char\<close> are the
  classes \<open>[a-zA-Z_]\<close> and \<open>[a-zA-Z0-9_]\<close> that a pattern spells out; and
  \<open>is_int_space\<close> is the whitespace that \<open>int()\<close> skips around a number.

  A test \<open>sub in s\<close> is \<open>py_in sub s\<close>, \<open>s.find(sub, start)\<close> is \<open>py_find s sub start\<close>
  (with \<open>-1\<close> for "not found"), \<open>s.split(sep)\<close> is \<open>split_sep sep s\<close> and \<open>s.split()\<close>
  is \<open>split_ws s\<close>.
\<close>

definition nl :: string where
  "nl = [CHR 0x0A]"

definition between :: "nat \<Rightarrow> nat \<Rightarrow> char \<Rightarrow> bool" where
  "between lo hi c = (lo \<le> of_char c \<and> of_char c \<le> hi)"

definition is_space :: "char \<Rightarrow> bool" where
  "is_space c = (between 9 13 c \<or> between 28 32 c \<or> between 133 133 c \<or> between 160 160 c)"

definition is_int_space :: "char \<Rightarrow> bool" where
  "is_int_space c =
     (between 9 13 c \<or> between 32 32 c \<or> between 133 133 c \<or> between 160 160 c)"

definition is_digit :: "char \<Rightarrow> bool" where
  "is_digit c = between 48 57 c"

definition is_lower :: "char \<Rightarrow> bool" where
  "is_lower c =
     (between 97 122 c \<or> between 170 170 c \<or> between 181 181 c \<or> between 186 186 c \<or>
      between 223 246 c \<or> between 248 255 c)"

definition is_upper :: "char \<Rightarrow> bool" where
  "is_upper c = (between 65 90 c \<or> between 192 214 c \<or> between 216 222 c)"

definition is_ident_start :: "char \<Rightarrow> bool" where
  "is_ident_start c = (between 65 90 c \<or> between 97 122 c \<or> c = CHR ''_'')"

definition is_ident_char :: "char \<Rightarrow> bool" where
  "is_ident_char c = (is_ident_start c \<or> is_digit c)"

definition is_word :: "char \<Rightarrow> bool" where
  "is_word c =
     (between 48 57 c \<or> between 65 90 c \<or> between 95 95 c \<or> between 97 122 c \<or>
      between 170 170 c \<or> between 178 179 c \<or> between 181 181 c \<or> between 185 186 c \<or>
      between 188 190 c \<or> between 192 214 c \<or> between 216 246 c \<or> between 248 255 c)"

definition startswith :: "string \<Rightarrow> string \<Rightarrow> bool" where
  "startswith s p = (take (length p) s = p)"

definition endswith :: "string \<Rightarrow> string \<Rightarrow> bool" where
  "endswith s p = (length p \<le> length s \<and> drop (length s - length p) s = p)"

definition lstrip :: "string \<Rightarrow> string" where
  "lstrip s = dropWhile is_space s"

definition rstrip :: "string \<Rightarrow> string" where
  "rstrip s = rev (dropWhile is_space (rev s))"

definition strip :: "string \<Rightarrow> string" where
  "strip s = lstrip (rstrip s)"

definition int_strip :: "string \<Rightarrow> string" where
  "int_strip s = dropWhile is_int_space (rev (dropWhile is_int_space (rev s)))"

definition rstrip_dot :: "string \<Rightarrow> string" where
  "rstrip_dot s = rev (dropWhile (\<lambda>c. c = CHR ''.'') (rev s))"

fun py_in :: "string \<Rightarrow> string \<Rightarrow> bool" where
  "py_in sub [] = (sub = [])"
| "py_in sub (c # cs) = (startswith (c # cs) sub \<or> py_in sub cs)"

fun find_idx :: "string \<Rightarrow> string \<Rightarrow> nat option" where
  "find_idx sub [] = (if sub = [] then Some 0 else None)"
| "find_idx sub (c # cs) =
     (if startswith (c # cs) sub then Some 0 else map_option Suc (find_idx sub cs))"

definition py_find :: "string \<Rightarrow> string \<Rightarrow> int \<Rightarrow> int" where
  "py_find s sub start =
     (let n = int (length s);
          st = (if start < 0 then max 0 (n + start) else start)
      in if st > n then - 1
         else (case find_idx sub (drop (nat st) s) of
                 None \<Rightarrow> - 1
               | Some i \<Rightarrow> st + int i))"

definition py_slice :: "string \<Rightarrow> int \<Rightarrow> int \<Rightarrow> string" where
  "py_slice s a b =
     (let n = int (length s);
          a' = (if a < 0 then max 0 (n + a) else a);
          b' = (if b < 0 then max 0 (n + b) else b)
      in drop (nat a') (take (nat b') s))"

fun py_join :: "string \<Rightarrow> string list \<Rightarrow> string" where
  "py_join sep [] = []"
| "py_join sep [x] = x"
| "py_join sep (x # y # ys) = x @ sep @ py_join sep (y # ys)"

lemma find_idx_bound:
  "find_idx sub s = Some i \<Longrightarrow> i + length sub \<le> length s"
proof (induction s arbitrary: i)
  case Nil
  then show ?case by (simp split: if_splits)
next
  case (Cons c cs)
  show ?case
  proof (cases "startswith (c # cs) sub")
    case True
    then have "length (take (length sub) (c # cs)) = length sub"
      unfolding startswith_def by simp
    then have "length sub \<le> length (c # cs)"
      by (simp add: min_def split: if_splits)
    with True Cons.prems show ?thesis by simp
  next
    case False
    with Cons.prems obtain j where "find_idx sub cs = Some j" "i = Suc j"
      by auto
    with Cons.IH show ?thesis by simp
  qed
qed

text \<open>
  \<open>s.split(sep)\<close> for a non-empty separator: cut at the leftmost occurrence and go on
  behind it.  Python raises \<open>ValueError\<close> for the empty separator; every call in the
  wrappers passes a non-empty literal, and the model returns \<open>[s]\<close> there.
\<close>

function split_sep :: "string \<Rightarrow> string \<Rightarrow> string list" where
  "split_sep sep s =
     (if sep = [] then [s]
      else (case find_idx sep s of
              None \<Rightarrow> [s]
            | Some i \<Rightarrow> take i s # split_sep sep (drop (i + length sep) s)))"
  by pat_completeness auto
termination
proof (relation "measure (\<lambda>(sep, s). length s)")
  show "wf (measure (\<lambda>(sep, s). length s))" by simp
next
  fix sep s :: string and i :: nat
  assume ne: "sep \<noteq> []" and f: "find_idx sep s = Some i"
  from ne have "0 < length sep" by simp
  with find_idx_bound [OF f] have "length s - (i + length sep) < length s"
    by arith
  then show "((sep, drop (i + length sep) s), (sep, s)) \<in> measure (\<lambda>(sep, s). length s)"
    by simp
qed

declare split_sep.simps [simp del]

text \<open>\<open>s.split()\<close>: the maximal runs of non-whitespace characters, in order.\<close>

fun split_ws_acc :: "string \<Rightarrow> string \<Rightarrow> string list" where
  "split_ws_acc acc [] = (if acc = [] then [] else [rev acc])"
| "split_ws_acc acc (c # cs) =
     (if is_space c
      then (if acc = [] then split_ws_acc [] cs else rev acc # split_ws_acc [] cs)
      else split_ws_acc (c # acc) cs)"

definition split_ws :: "string \<Rightarrow> string list" where
  "split_ws s = split_ws_acc [] s"

text \<open>\<open>s.count(sub)\<close> for a non-empty \<open>sub\<close>: the non-overlapping occurrences.\<close>

definition py_count :: "string \<Rightarrow> string \<Rightarrow> nat" where
  "py_count s sub = length (split_sep sub s) - 1"

text \<open>
  \<open>str(n)\<close> and the \<open>{n}\<close> of an f-string, for an integer: its decimal text.  (Python
  refuses this conversion for an integer of more than 4300 digits; the model writes the
  digits of every integer.)
\<close>

definition digit_char :: "nat \<Rightarrow> char" where
  "digit_char d = ''0123456789'' ! d"

fun str_nat :: "nat \<Rightarrow> string" where
  "str_nat n = (if n < 10 then [digit_char n] else str_nat (n div 10) @ [digit_char (n mod 10)])"

declare str_nat.simps [simp del]

definition str_int :: "int \<Rightarrow> string" where
  "str_int i = (if i < 0 then CHR ''-'' # str_nat (nat (- i)) else str_nat (nat i))"

section \<open>Solver input builders\<close>

text \<open>
  \<open>LogicEngine._create_input_file\<close> (server.py) and \<open>Mace4Wrapper._create_input_file\<close>
  (mace4\_wrapper.py) collect the lines of the input in a list \<open>content\<close> and write
  \<open>'\n'.join(content)\<close> to a fresh temporary file.  The expression
  \<open>p if p.endswith(".") else p + "."\<close> occurs in both; it is \<open>with_period\<close>.
\<close>

definition with_period :: "string \<Rightarrow> string" where
  "with_period p = (if endswith p ''.'' then p else p @ ''.'')"

definition LogicEngine_content :: "string list \<Rightarrow> string \<Rightarrow> string list" where
  "LogicEngine_content premises goal =
     [''formulas(assumptions).''] @ map with_period premises @
     [''end_of_list.'', '''', ''formulas(goals).'', with_period goal, ''end_of_list.'']"

definition LogicEngine_input_content :: "string list \<Rightarrow> string \<Rightarrow> string" where
  "LogicEngine_input_content premises goal = py_join nl (LogicEngine_content premises goal)"

text \<open>
  The model finder's builder.  \<open>goal\<close> and \<open>domain_size\<close> are \<open>Optional\<close>; the test
  \<open>if goal:\<close> is false for \<open>None\<close> and for the empty string, \<open>if domain_size is not None\<close>
  only for \<open>None\<close>.
\<close>

definition Mace4_content :: "string list \<Rightarrow> string option \<Rightarrow> int option \<Rightarrow> string list" where
  "Mace4_content premises goal dsize =
     (case dsize of
        Some d \<Rightarrow> [''assign(domain_size, '' @ str_int d @ '').'']
      | None \<Rightarrow> [''assign(domain_size, 2).'', ''assign(end_size, 10).'']) @
     [''assign(max_seconds, 60).'', ''''] @
     [''formulas(assumptions).''] @ map with_period premises @ [''end_of_list.'', ''''] @
     (case goal of
        None \<Rightarrow> []
      | Some g \<Rightarrow>
          if g = [] then []
          else [''formulas(goals).'', (''-(('' @ rstrip_dot g @ ''))'') @ ''.'', ''end_of_list.''])"

definition Mace4_input_content :: "string list \<Rightarrow> string option \<Rightarrow> int option \<Rightarrow> string" where
  "Mace4_input_content premises goal dsize = py_join nl (Mace4_content premises goal dsize)"

text \<open>
  \<open>find_counterexample\<close> passes its conclusion as the goal and \<open>find_model\<close> passes
  \<open>None\<close>; these are the inputs the two entry points build.
\<close>

definition find_counterexample_input :: "string list \<Rightarrow> string \<Rightarrow> int option \<Rightarrow> string" where
  "find_counterexample_input premises conclusion dsize =
     Mace4_input_content premises (Some conclusion) dsize"

definition find_model_input :: "string list \<Rightarrow> int option \<Rightarrow> string" where
  "find_model_input premises dsize = Mace4_input_content premises None dsize"

section \<open>Files, exceptions and the solver process\<close>

text \<open>
  A path is the list of its components (\<open>Path(dir) / name\<close> appends one).  The world
  holds the files that exist, with their text, and the paths the operating system refuses
  to remove.  An action runs in a world and either raises or returns, leaving a world.
\<close>

type_synonym path = "string list"

definition path_str :: "path \<Rightarrow> string" where
  "path_str p = py_join ''/'' p"

datatype exn_class =
  TimeoutExpired | IndexError | OSError | FileNotFoundError | PermissionError | OtherException

datatype py_exn = Exn exn_class string

fun exn_class_of :: "py_exn \<Rightarrow> exn_class" where
  "exn_class_of (Exn c msg) = c"

fun exn_str :: "py_exn \<Rightarrow> string" where
  "exn_str (Exn c msg) = msg"

text \<open>The classes caught by \<open>except (FileNotFoundError, PermissionError, OSError)\<close>.\<close>

definition is_OSError :: "exn_class \<Rightarrow> bool" where
  "is_OSError c = (c = OSError \<or> c = FileNotFoundError \<or> c = PermissionError)"

record world =
  files :: "path \<Rightarrow> string option"
  undeletable :: "path set"

type_synonym 'a action = "world \<Rightarrow> (py_exn + 'a) \<times> world"

definition path_exists :: "world \<Rightarrow> path \<Rightarrow> bool" where
  "path_exists w p = (files w p \<noteq> None)"

text \<open>\<open>Path.unlink()\<close>: removes the file, or raises and leaves the world as it is.\<close>

definition unlink :: "path \<Rightarrow> unit action" where
  "unlink p w =
     (if files w p = None
      then (Inl (Exn FileNotFoundError (''No such file or directory: '' @ path_str p)), w)
      else if p \<in> undeletable w
      then (Inl (Exn PermissionError (''Permission denied: '' @ path_str p)), w)
      else (Inr (), w\<lparr>files := (files w)(p := None)\<rparr>))"

text \<open>
  \<open>tempfile.mkstemp\<close> followed by the write, the last four lines of both builders.  What
  happens is the operating system's choice, a parameter of the model: the file is created
  at a path \<open>tmp\<close> and the text written; or \<open>mkstemp\<close> raises and no file appears; or the
  file is created at \<open>tmp\<close> and the write raises (an \<open>OSError\<close>, a \<open>UnicodeEncodeError\<close>),
  leaving the file with whatever part of the text got written.  In the two last cases the
  builder raises.
\<close>

datatype mkstemp_outcome =
  Written path | MkstempRaises py_exn | WriteRaises path string py_exn

definition write_input_file :: "mkstemp_outcome \<Rightarrow> string \<Rightarrow> path action" where
  "write_input_file created text w =
     (case created of
        Written tmp \<Rightarrow> (Inr tmp, w\<lparr>files := (files w)(tmp \<mapsto> text)\<rparr>)
      | MkstempRaises e \<Rightarrow> (Inl e, w)
      | WriteRaises tmp part e \<Rightarrow> (Inl e, w\<lparr>files := (files w)(tmp \<mapsto> part)\<rparr>))"

definition LogicEngine_create_input_file ::
  "string list \<Rightarrow> string \<Rightarrow> mkstemp_outcome \<Rightarrow> path action" where
  "LogicEngine_create_input_file premises goal created =
     write_input_file created (LogicEngine_input_content premises goal)"

definition Mace4Wrapper_create_input_file ::
  "string list \<Rightarrow> string option \<Rightarrow> int option \<Rightarrow> mkstemp_outcome \<Rightarrow> path action" where
  "Mace4Wrapper_create_input_file premises goal dsize created =
     write_input_file created (Mace4_input_content premises goal dsize)"

text \<open>
  Python's \<open>try ... except\<close> and \<open>try ... finally\<close>.  A handler returns \<open>Inl e\<close> for
  an exception its clauses do not catch.  An exception raised by the \<open>finally\<close> block
  replaces the pending result; otherwise the pending result stands.
\<close>

definition try_except :: "'a action \<Rightarrow> (py_exn \<Rightarrow> py_exn + 'a) \<Rightarrow> 'a action" where
  "try_except body handler w =
     (case body w of
        (Inl e, w') \<Rightarrow> (handler e, w')
      | (Inr v, w') \<Rightarrow> (Inr v, w'))"

definition try_finally :: "'a action \<Rightarrow> unit action \<Rightarrow> 'a action" where
  "try_finally body fin w =
     (case body w of
        (r, w1) \<Rightarrow>
          (case fin w1 of
             (Inl e, w2) \<Rightarrow> (Inl e, w2)
           | (Inr u, w2) \<Rightarrow> (r, w2)))"

text \<open>
  What \<open>subprocess.run(..., capture_output=True, text=True, timeout=timeout)\<close> gives
  back: the two captured streams.  The solver itself is a parameter of the model, an
  arbitrary action that returns the streams or raises (\<open>TimeoutExpired\<close>, or the error
  of a failed spawn).
\<close>

record completed =
  stdout :: string
  stderr :: string

text \<open>Indexing a list as Python does, with \<open>IndexError\<close> out of range.\<close>

definition py_index :: "'a list \<Rightarrow> nat \<Rightarrow> py_exn + 'a" where
  "py_index xs i =
     (if i < length xs then Inr (xs ! i) else Inl (Exn IndexError ''list index out of range''))"

type_synonym sdict = "(string \<times> string) list"

definition dict_get :: "('k \<times> 'v) list \<Rightarrow> 'k \<Rightarrow> 'v \<Rightarrow> 'v" where
  "dict_get d k dflt = (case map_of d k of None \<Rightarrow> dflt | Some v \<Rightarrow> v)"

section \<open>Running the prover and classifying its output\<close>

text \<open>
  The \<open>if\<close>/\<open>elif\<close> chain of \<open>LogicEngine._run_prover\<close> over the captured streams.  In
  the first branch \<open>result.stdout.split("PROOF =")[1]\<close> raises \<open>IndexError\<close> when the
  split has a single piece.
\<close>

definition classify_prover :: "string \<Rightarrow> string \<Rightarrow> py_exn + sdict" where
  "classify_prover out err =
     (if py_in ''THEOREM PROVED'' out then
        (case py_index (split_sep ''PROOF ='' out) 1 of
           Inl e \<Rightarrow> Inl e
         | Inr seg \<Rightarrow>
             (case py_index (split_sep ''===='' seg) 0 of
                Inl e \<Rightarrow> Inl e
              | Inr p \<Rightarrow>
                  Inr [(''result'', ''proved''), (''proof'', strip p),
                       (''complete_output'', out)]))
      else if py_in ''SEARCH FAILED'' out then
        Inr [(''result'', ''unprovable''), (''reason'', ''Proof search failed''),
             (''complete_output'', out)]
      else if py_in ''Fatal error'' err then
        Inr [(''result'', ''error''), (''reason'', ''Syntax error''), (''error'', err)]
      else
        Inr [(''result'', ''error''), (''reason'', ''Unexpected output''),
             (''output'', out), (''error'', err)])"

text \<open>The \<open>try\<close> block: run the solver, then classify what it printed.\<close>

definition run_prover_try :: "completed action \<Rightarrow> sdict action" where
  "run_prover_try spawn w =
     (case spawn w of
        (Inl e, w') \<Rightarrow> (Inl e, w')
      | (Inr r, w') \<Rightarrow> (classify_prover (stdout r) (stderr r), w'))"

text \<open>
  The clauses \<open>except subprocess.TimeoutExpired\<close> and \<open>except Exception as e\<close>, in
  this order.
\<close>

definition run_prover_except :: "int \<Rightarrow> py_exn \<Rightarrow> py_exn + sdict" where
  "run_prover_except timeout e =
     (if exn_class_of e = TimeoutExpired
      then Inr [(''result'', ''timeout''),
                (''reason'', ''Proof search exceeded '' @ str_int timeout @ '' seconds'')]
      else Inr [(''result'', ''error''), (''reason'', exn_str e)])"

text \<open>The \<open>finally\<close> block of the prover: \<open>try: input_path.unlink()  except: pass\<close>.\<close>

definition prover_cleanup :: "path \<Rightarrow> unit action" where
  "prover_cleanup input_path = try_except (unlink input_path) (\<lambda>e. Inr ())"

definition LogicEngine_run_prover :: "completed action \<Rightarrow> path \<Rightarrow> int \<Rightarrow> sdict action" where
  "LogicEngine_run_prover spawn input_path timeout =
     try_finally (try_except (run_prover_try spawn) (run_prover_except timeout))
                 (prover_cleanup input_path)"

section \<open>Running the model finder and parsing a model\<close>

text \<open>
  \<open>int(token)\<close>: surrounding whitespace, an optional sign, and groups of decimal digits
  joined by single underscores; the digits \<open>0\<close> to \<open>9\<close> are the only decimal digits
  below code point 256.  A text with more than 4300 digits is refused (the default of
  \<open>sys.get_int_max_str_digits()\<close>; sign, underscores and whitespace do not count, leading
  zeros do).  A \<open>ValueError\<close> is \<open>None\<close>.
\<close>

definition int_max_str_digits :: nat where
  "int_max_str_digits = 4300"

definition digit_val :: "char \<Rightarrow> nat" where
  "digit_val c = of_char c - 48"

definition py_int :: "string \<Rightarrow> int option" where
  "py_int s =
     (let t = int_strip s;
          neg = (t \<noteq> [] \<and> hd t = CHR ''-'');
          body = (if t \<noteq> [] \<and> (hd t = CHR ''-'' \<or> hd t = CHR ''+'') then tl t else t);
          groups = split_sep ''_'' body
      in if list_all (\<lambda>g. g \<noteq> [] \<and> list_all is_digit g) groups
            \<and> length (concat groups) \<le> int_max_str_digits
         then let n = foldl (\<lambda>a c. 10 * a + int (digit_val c)) 0 (concat groups)
              in Some (if neg then - n else n)
         else None)"

record model =
  domain_size :: "int option"
  model_predicates :: "(string \<times> string) list"
  model_functions :: "(string \<times> string) list"
  model_constants :: "(string \<times> string) list"
  raw_interpretation :: string

text \<open>
  One round of the loop \<open>for line in output.split("\n")\<close>: the \<open>try\<close> covers both
  \<open>line.split()[-1]\<close> and \<open>int(...)\<close>, and the bare \<open>except\<close> leaves the model as it is.
  The loop has no \<open>break\<close>.
\<close>

definition domain_size_step :: "string \<Rightarrow> model \<Rightarrow> model" where
  "domain_size_step line m =
     (if py_in ''DOMAIN SIZE'' line then
        (case split_ws line of
           [] \<Rightarrow> m
         | t # ts \<Rightarrow>
             (case py_int (last (t # ts)) of
                None \<Rightarrow> m
              | Some sz \<Rightarrow> m\<lparr>domain_size := Some sz\<rparr>))
      else m)"

text \<open>One round of the loop over the lines of the interpretation block.\<close>

definition relation_step :: "string \<Rightarrow> model \<Rightarrow> model" where
  "relation_step line0 m =
     (let line = strip line0
      in if startswith line ''function('' \<or> startswith line ''relation(''
         then m\<lparr>raw_interpretation := raw_interpretation m @ nl @ line\<rparr>
         else m)"

definition parse_model :: "string \<Rightarrow> model" where
  "parse_model output =
     (let m0 = \<lparr>domain_size = None, model_predicates = [], model_functions = [],
                model_constants = [],
                raw_interpretation = ''''\<rparr>;
          m1 = fold domain_size_step (split_sep nl output) m0
      in if py_in ''interpretation('' output then
           (let start = py_find output ''interpretation('' 0;
                end_pos = py_find output ''end_of_list'' start
            in if end_pos > start then
                 (let interpretation = py_slice output start (end_pos + int (length ''end_of_list''));
                      m2 = m1\<lparr>raw_interpretation := strip interpretation\<rparr>
                  in fold relation_step (split_sep nl interpretation) m2)
               else m1)
         else m1)"

datatype pyval = Str string | ModelVal model

type_synonym mdict = "(string \<times> pyval) list"

definition classify_mace4 :: "string \<Rightarrow> string \<Rightarrow> mdict" where
  "classify_mace4 out err =
     (if py_in ''DOMAIN SIZE'' out \<and> py_in ''interpretation('' out then
        [(''result'', Str ''model_found''), (''model'', ModelVal (parse_model out)),
         (''complete_output'', Str out)]
      else if py_in ''SEARCH FAILED'' out \<or> py_in ''SEARCH TERMINATED'' out then
        [(''result'', Str ''no_model_found''),
         (''reason'', Str ''No finite model found within domain size limits''),
         (''complete_output'', Str out)]
      else if py_in ''Fatal error'' err \<or> py_in ''Fatal error'' out then
        [(''result'', Str ''error''), (''reason'', Str ''Syntax error or invalid input''),
         (''error'', Str (if err \<noteq> [] then err else out))]
      else
        [(''result'', Str ''unknown''), (''reason'', Str ''Unexpected Mace4 output''),
         (''output'', Str out), (''error'', Str err)])"

definition run_mace4_try :: "completed action \<Rightarrow> mdict action" where
  "run_mace4_try spawn w =
     (case spawn w of
        (Inl e, w') \<Rightarrow> (Inl e, w')
      | (Inr r, w') \<Rightarrow> (Inr (classify_mace4 (stdout r) (stderr r)), w'))"

definition run_mace4_except :: "int \<Rightarrow> py_exn \<Rightarrow> py_exn + mdict" where
  "run_mace4_except timeout e =
     (if exn_class_of e = TimeoutExpired
      then Inr [(''result'', Str ''timeout''),
                (''reason'', Str (''Model search exceeded '' @ str_int timeout @ '' seconds''))]
      else Inr [(''result'', Str ''error''), (''reason'', Str (exn_str e))])"

text \<open>
  The \<open>finally\<close> block of the model finder:
  \<open>except (FileNotFoundError, PermissionError, OSError): pass\<close>.
\<close>

definition mace4_cleanup :: "path \<Rightarrow> unit action" where
  "mace4_cleanup input_path =
     try_except (unlink input_path)
       (\<lambda>e. if is_OSError (exn_class_of e) then Inr () else Inl e)"

definition Mace4Wrapper_run_mace4 :: "completed action \<Rightarrow> path \<Rightarrow> int \<Rightarrow> mdict action" where
  "Mace4Wrapper_run_mace4 spawn input_path timeout =
     try_finally (try_except (run_mace4_try spawn) (run_mace4_except timeout))
                 (mace4_cleanup input_path)"

section \<open>Locating the solver binaries\<close>

text \<open>
  The two constructors.  Each returns the path of the executable it settled on, or
  raises \<open>FileNotFoundError\<close>.
\<close>

definition LogicEngine_init :: "path \<Rightarrow> world \<Rightarrow> py_exn + path" where
  "LogicEngine_init prover_path w =
     (let prover_exe = prover_path @ [''prover9.exe'']
      in if \<not> path_exists w prover_exe
         then Inl (Exn FileNotFoundError (''Prover9 not found at '' @ path_str prover_exe))
         else Inr prover_exe)"

definition Mace4Wrapper_init :: "path \<Rightarrow> world \<Rightarrow> py_exn + path" where
  "Mace4Wrapper_init mace4_path w =
     (let mace4_exe = mace4_path @ [''mace4.exe'']
      in if \<not> path_exists w mace4_exe then
           (let mace4_exe2 = mace4_path @ [''mace4'']
            in if \<not> path_exists w mace4_exe2
               then Inl (Exn FileNotFoundError
                      (''Mace4 not found at '' @ path_str mace4_exe2 @ '' or with .exe extension''))
               else Inr mace4_exe2)
         else Inr mace4_exe)"

section \<open>The check-well-formed tool\<close>

text \<open>
  The branch \<open>name == "check-well-formed"\<close> of \<open>handle_call_tool\<close>, for
  \<open>arguments["statements"] = statements\<close>: the statements become the premises of an
  input with the goal \<open>true\<close>, the prover runs with a timeout of 5, and the response is
  the text of the dictionary \<open>{"valid": is_valid, "details": results}\<close>, of which the model
  keeps the two values.  An exception on the way (the builder's, when the file cannot be
  created or written) reaches the handler's own clause \<open>except Exception as e\<close>, which
  answers with the text \<open>Error: ...\<close> and no flag.
\<close>

datatype tool_response = Checked bool sdict | ErrorText string

definition check_well_formed ::
  "string list \<Rightarrow> mkstemp_outcome \<Rightarrow> completed action \<Rightarrow> world \<Rightarrow>
     tool_response \<times> world" where
  "check_well_formed statements created spawn w =
     (case LogicEngine_create_input_file statements ''true'' created w of
        (Inl e, w1) \<Rightarrow> (ErrorText (''Error: '' @ exn_str e), w1)
      | (Inr check_file, w1) \<Rightarrow>
          (case LogicEngine_run_prover spawn check_file 5 w1 of
             (Inl e, w2) \<Rightarrow> (ErrorText (''Error: '' @ exn_str e), w2)
           | (Inr results, w2) \<Rightarrow>
               (let is_valid = \<not> py_in ''Fatal error'' (dict_get results ''error'' '''')
                in (Checked is_valid results, w2))))"

section \<open>The syntax validator\<close>

text \<open>
  \<open>SyntaxValidator\<close> keeps two lists, \<open>errors\<close> and \<open>warnings\<close>; every check appends to
  them.  The regular expressions of the checks are matched by the scanners below; \<open>\w\<close>
  is \<open>is_word\<close>, \<open>\s\<close> is \<open>is_space\<close>, and \<open>\b\<close> before a word character holds at the
  start of the text and behind a character that is not a word character.  The classes
  \<open>[a-zA-Z_]\<close> and \<open>[a-zA-Z0-9_]\<close> of the naming pattern are \<open>is_ident_start\<close> and
  \<open>is_ident_char\<close>; they are smaller than \<open>\w\<close>, which the \<open>\b\<close> in front of them uses.
\<close>

record validator =
  errors :: "string list"
  warnings :: "string list"

definition sq :: string where
  "sq = [CHR 0x27]"

definition dq :: string where
  "dq = [CHR 0x22]"

definition QUANTIFIERS :: "string set" where
  "QUANTIFIERS = {''all'', ''exists''}"

definition RESERVED :: "string set" where
  "RESERVED = QUANTIFIERS \<union> {''true'', ''false'', ''end_of_list''}"

text \<open>
  \<open>QUANTIFIERS\<close> is a Python set of strings, and the order in which a \<open>for\<close> loop
  visits it is not fixed; both orders are modelled.
\<close>

datatype set_order = AllFirst | ExistsFirst

fun quantifiers_in_order :: "set_order \<Rightarrow> string list" where
  "quantifiers_in_order AllFirst = [''all'', ''exists'']"
| "quantifiers_in_order ExistsFirst = [''exists'', ''all'']"

subsection \<open>Balanced parentheses\<close>

text \<open>
  The loop over \<open>enumerate(formula)\<close>: \<open>i\<close> is the position of the next character and
  \<open>stack\<close> the Python list of open positions (\<open>append\<close> at the end, \<open>pop\<close> from the end).
\<close>

fun parens_loop :: "nat \<Rightarrow> string \<Rightarrow> nat list \<Rightarrow> validator \<Rightarrow> nat list \<times> validator" where
  "parens_loop i [] stack v = (stack, v)"
| "parens_loop i (c # cs) stack v =
     (if c = CHR ''('' then parens_loop (Suc i) cs (stack @ [i]) v
      else if c = CHR '')'' then
        (if stack = []
         then parens_loop (Suc i) cs stack
                (v\<lparr>errors := errors v @
                   [''Unmatched closing parenthesis at position '' @ str_nat i]\<rparr>)
         else parens_loop (Suc i) cs (butlast stack) v)
      else parens_loop (Suc i) cs stack v)"

definition check_balanced_parens :: "string \<Rightarrow> validator \<Rightarrow> validator" where
  "check_balanced_parens formula v =
     (case parens_loop 0 formula [] v of
        (stack, v') \<Rightarrow>
          (case stack of
             [] \<Rightarrow> v'
           | p # ps \<Rightarrow>
               v'\<lparr>errors := errors v' @
                  [''Unmatched opening parenthesis at position '' @ str_nat p]\<rparr>))"

subsection \<open>Quantifiers\<close>

text \<open>
  A match of \<open>\b{quantifier}\s+(\w+)\<close> at the start of \<open>s\<close>: the captured variable and
  the text behind the match.  Both repetitions are greedy, and a shorter run of either
  cannot match, since a whitespace character is no word character.
\<close>

definition quant_match :: "string \<Rightarrow> string \<Rightarrow> (string \<times> string) option" where
  "quant_match q s =
     (if startswith s q then
        (let r = drop (length q) s;
             r1 = dropWhile is_space r;
             var = takeWhile is_word r1
         in if r \<noteq> [] \<and> is_space (hd r) \<and> var \<noteq> []
            then Some (var, dropWhile is_word r1)
            else None)
      else None)"

lemma quant_match_shorter:
  assumes "quant_match q s = Some (var, rest)"
  shows "length rest < length s"
proof -
  define r where "r = drop (length q) s"
  define r1 where "r1 = dropWhile is_space r"
  from assms have var: "var = takeWhile is_word r1" "var \<noteq> []"
    and rest: "rest = dropWhile is_word r1"
    unfolding quant_match_def r_def r1_def by (auto simp: Let_def split: if_splits)
  have "length var + length rest = length r1"
    unfolding var rest by (metis length_append takeWhile_dropWhile_id)
  with var(2) have "length rest < length r1" by (cases var) auto
  also have "length r1 \<le> length r" unfolding r1_def by (rule length_dropWhile_le)
  also have "length r \<le> length s" unfolding r_def by simp
  finally show ?thesis .
qed

text \<open>
  \<open>re.finditer\<close>: the matches from left to right, each search starting where the last
  match ended.  \<open>prevw\<close> says that the character before the text is a word character.
\<close>

function quant_finditer :: "string \<Rightarrow> bool \<Rightarrow> string \<Rightarrow> (string \<times> string) list" where
  "quant_finditer q prevw [] = []"
| "quant_finditer q prevw (c # cs) =
     (case (if prevw then None else quant_match q (c # cs)) of
        Some (var, rest) \<Rightarrow> (var, rest) # quant_finditer q True rest
      | None \<Rightarrow> quant_finditer q (is_word c) cs)"
  by pat_completeness auto
termination
proof (relation "measure (\<lambda>(q, prevw, s). length s)")
  show "wf (measure (\<lambda>(q, prevw, s). length s))" by simp
next
  fix q :: string and prevw :: bool and c :: char and cs :: string
    and x2 :: "string \<times> string" and var rest :: string
  assume "(if prevw then None else quant_match q (c # cs)) = Some x2" "(var, rest) = x2"
  then have "quant_match q (c # cs) = Some (var, rest)" by (simp split: if_splits)
  from quant_match_shorter [OF this]
  show "((q, True, rest), (q, prevw, c # cs)) \<in> measure (\<lambda>(q, prevw, s). length s)"
    by simp
next
  fix q :: string and prevw :: bool and c :: char and cs :: string
  show "((q, is_word c, cs), (q, prevw, c # cs)) \<in> measure (\<lambda>(q, prevw, s). length s)"
    by simp
qed

text \<open>The body of the loop over the matches of one quantifier.\<close>

fun quantifier_loop :: "string \<Rightarrow> (string \<times> string) list \<Rightarrow> validator \<Rightarrow> validator" where
  "quantifier_loop quantifier [] v = v"
| "quantifier_loop quantifier ((var, rest) # ms) v =
     (let v1 = (if \<not> (var \<noteq> [] \<and> is_lower (hd var))
                then v\<lparr>warnings := warnings v @
                       [''Quantifier variable '' @ sq @ var @ sq @
                        '' should start with lowercase'']\<rparr>
                else v);
          remaining = lstrip rest;
          v2 = (if remaining = [] \<or> hd remaining \<noteq> CHR ''(''
                then v1\<lparr>errors := errors v1 @
                        [''Quantifier '' @ sq @ quantifier @ '' '' @ var @ sq @
                         '' must be followed by a formula in parentheses'']\<rparr>
                else v1)
      in quantifier_loop quantifier ms v2)"

definition check_quantifiers :: "set_order \<Rightarrow> string \<Rightarrow> validator \<Rightarrow> validator" where
  "check_quantifiers order formula v =
     fold (\<lambda>quantifier. quantifier_loop quantifier (quant_finditer quantifier False formula))
          (quantifiers_in_order order) v"

subsection \<open>Operators\<close>

definition check_operators :: "string \<Rightarrow> validator \<Rightarrow> validator" where
  "check_operators formula v =
     (let v1 = fold (\<lambda>op v. if py_in (op @ op) formula
                        then v\<lparr>warnings := warnings v @
                               [''Double operator '' @ sq @ op @ op @ sq @
                                '' found - did you mean to use it twice?'']\<rparr>
                        else v)
                    [''&'', ''|''] v
      in if py_count formula ''->'' > 1 \<and> py_count formula ''('' = 0
         then v1\<lparr>warnings := warnings v1 @
                 [''Multiple implications without parentheses - consider adding parentheses for clarity'']\<rparr>
         else v1)"

subsection \<open>Names\<close>

text \<open>
  A match of \<open>\b([a-zA-Z_][a-zA-Z0-9_]*)\s*\(\<close> at the start of \<open>s\<close>: the captured name
  and the text behind the opening parenthesis.  The name is the longest run of identifier
  characters: behind a shorter one stands an identifier character, which is neither
  whitespace nor a parenthesis.
\<close>

definition naming_match :: "string \<Rightarrow> (string \<times> string) option" where
  "naming_match s =
     (let name = takeWhile is_ident_char s;
          r = dropWhile is_space (dropWhile is_ident_char s)
      in if name \<noteq> [] \<and> is_ident_start (hd name) \<and> r \<noteq> [] \<and> hd r = CHR ''(''
         then Some (name, tl r)
         else None)"

lemma naming_match_shorter:
  assumes "naming_match s = Some (name, rest)"
  shows "length rest < length s"
proof -
  define r where "r = dropWhile is_space (dropWhile is_ident_char s)"
  from assms have r: "r \<noteq> []" and rest: "rest = tl r"
    unfolding naming_match_def r_def by (auto simp: Let_def split: if_splits)
  then have "length rest < length r" by (cases r) auto
  also have "length r \<le> length (dropWhile is_ident_char s)"
    unfolding r_def by (rule length_dropWhile_le)
  also have "\<dots> \<le> length s" by (rule length_dropWhile_le)
  finally show ?thesis .
qed

function naming_finditer :: "bool \<Rightarrow> string \<Rightarrow> string list" where
  "naming_finditer prevw [] = []"
| "naming_finditer prevw (c # cs) =
     (case (if prevw then None else naming_match (c # cs)) of
        Some (name, rest) \<Rightarrow> name # naming_finditer False rest
      | None \<Rightarrow> naming_finditer (is_word c) cs)"
  by pat_completeness auto
termination
proof (relation "measure (\<lambda>(prevw, s). length s)")
  show "wf (measure (\<lambda>(prevw, s). length s))" by simp
next
  fix prevw :: bool and c :: char and cs :: string
    and x2 :: "string \<times> string" and name rest :: string
  assume "(if prevw then None else naming_match (c # cs)) = Some x2" "(name, rest) = x2"
  then have "naming_match (c # cs) = Some (name, rest)" by (simp split: if_splits)
  from naming_match_shorter [OF this]
  show "((False, rest), (prevw, c # cs)) \<in> measure (\<lambda>(prevw, s). length s)"
    by simp
next
  fix prevw :: bool and c :: char and cs :: string
  show "((is_word c, cs), (prevw, c # cs)) \<in> measure (\<lambda>(prevw, s). length s)"
    by simp
qed

text \<open>
  The body of the loop over the names: \<open>continue\<close> for a quantifier, then the warning
  for an uppercase initial, then the error for a reserved word.
\<close>

definition naming_step :: "string \<Rightarrow> validator \<Rightarrow> validator" where
  "naming_step name v =
     (if name \<in> QUANTIFIERS then v
      else
        (let v1 = (if name \<noteq> [] \<and> is_upper (hd name)
                   then v\<lparr>warnings := warnings v @
                          [''Predicate/function '' @ sq @ name @ sq @
                           '' starts with uppercase - consider using lowercase for consistency'']\<rparr>
                   else v)
         in if name \<in> RESERVED
            then v1\<lparr>errors := errors v1 @
                    [sq @ name @ sq @
                     '' is a reserved keyword and cannot be used as a predicate/function'']\<rparr>
            else v1))"

definition check_naming :: "string \<Rightarrow> validator \<Rightarrow> validator" where
  "check_naming formula v = fold naming_step (naming_finditer False formula) v"

subsection \<open>Common mistakes\<close>

text \<open>\<open>re.search(rf"\w{op}\w", formula)\<close>: is there a match anywhere.\<close>

fun search_tight_op :: "string \<Rightarrow> string \<Rightarrow> bool" where
  "search_tight_op op [] = False"
| "search_tight_op op (c # cs) =
     ((is_word c \<and> startswith cs op \<and>
       (case drop (length op) cs of [] \<Rightarrow> False | d # ds \<Rightarrow> is_word d))
      \<or> search_tight_op op cs)"

definition check_common_mistakes :: "string \<Rightarrow> validator \<Rightarrow> validator" where
  "check_common_mistakes formula v =
     (let v1 = fold (\<lambda>op v. if search_tight_op op formula
                        then v\<lparr>warnings := warnings v @
                               [''Consider adding spaces around '' @ sq @ op @ sq @
                                '' for readability'']\<rparr>
                        else v)
                    [''->'', ''<->''] v;
          v2 = (if py_in dq formula \<or> py_in sq formula
                then v1\<lparr>warnings := warnings v1 @
                        [''Strings in quotes are not standard in first-order logic - use predicates or constants instead'']\<rparr>
                else v1)
      in if py_in ''()'' formula
         then v2\<lparr>errors := errors v2 @
                 [''Empty parentheses found - predicates and functions must have arguments'']\<rparr>
         else v2)"

subsection \<open>validate\<close>

definition validate :: "set_order \<Rightarrow> string \<Rightarrow> bool \<times> string list \<times> string list" where
  "validate order formula =
     (let v0 = \<lparr>errors = [], warnings = []\<rparr>;
          formula_clean = rstrip_dot formula;
          v1 = check_balanced_parens formula_clean v0;
          v2 = check_quantifiers order formula_clean v1;
          v3 = check_operators formula_clean v2;
          v4 = check_naming formula_clean v3;
          v5 = check_common_mistakes formula_clean v4
      in (length (errors v5) = 0, errors v5, warnings v5))"

section \<open>Reference behaviour and example environments\<close>

text \<open>
  The text of \<open>s\<close> in front of the first occurrence of \<open>sep\<close>, or all of \<open>s\<close> when there
  is none.  The proof extraction of the prover is stated with it.
\<close>

definition text_before :: "string \<Rightarrow> string \<Rightarrow> string" where
  "text_before sep s = (case find_idx sep s of None \<Rightarrow> s | Some i \<Rightarrow> take i s)"

text \<open>
  The integers that the lines of an output offer as domain size: for every line with
  \<open>DOMAIN SIZE\<close> whose last whitespace-delimited token reads as an integer, that integer,
  in the order of the lines.
\<close>

definition domain_size_candidates :: "string list \<Rightarrow> int list" where
  "domain_size_candidates ls =
     List.map_filter
       (\<lambda>line. if py_in ''DOMAIN SIZE'' line \<and> split_ws line \<noteq> []
               then py_int (last (split_ws line)) else None)
       ls"

text \<open>
  The function and relation lines of an interpretation block, each with a line break in
  front, as the second loop of \<open>_parse_model\<close> appends them.
\<close>

definition relation_lines :: "string \<Rightarrow> string" where
  "relation_lines block =
     concat (map (\<lambda>l. nl @ l)
       (filter (\<lambda>l. startswith l ''function('' \<or> startswith l ''relation('')
          (map strip (split_sep nl block))))"

text \<open>
  Example environments: a solver that prints two given streams, a solver whose run
  raises, and a world given by its files and the paths that cannot be removed.
\<close>

definition solver_prints :: "string \<Rightarrow> string \<Rightarrow> completed action" where
  "solver_prints out err w = (Inr \<lparr>stdout = out, stderr = err\<rparr>, w)"

definition solver_raises :: "py_exn \<Rightarrow> completed action" where
  "solver_raises e w = (Inl e, w)"

definition world_with :: "(path \<times> string) list \<Rightarrow> path list \<Rightarrow> world" where
  "world_with fs locked = \<lparr>files = map_of fs, undeletable = set locked\<rparr>"

section \<open>Facts about the string primitives\<close>

lemma startswith_Nil [simp]: "startswith s []"
  by (simp add: startswith_def)

lemma startswith_append [simp]: "startswith (p @ s) p"
  by (simp add: startswith_def)

lemma startswith_iff: "startswith s p \<longleftrightarrow> (\<exists>r. s = p @ r)"
proof
  assume "startswith s p"
  then have "s = p @ drop (length p) s"
    unfolding startswith_def by (metis append_take_drop_id)
  then show "\<exists>r. s = p @ r" ..
next
  assume "\<exists>r. s = p @ r"
  then show "startswith s p" by auto
qed

lemma py_in_iff: "py_in sub s \<longleftrightarrow> (\<exists>a b. s = a @ sub @ b)"
proof (induction s)
  case Nil
  show ?case by auto
next
  case (Cons c cs)
  show ?case
  proof
    assume "py_in sub (c # cs)"
    then consider "startswith (c # cs) sub" | "py_in sub cs" by auto
    then show "\<exists>a b. c # cs = a @ sub @ b"
    proof cases
      case 1
      then obtain r where "c # cs = sub @ r" by (auto simp: startswith_iff)
      then have "c # cs = [] @ sub @ r" by simp
      then show ?thesis by blast
    next
      case 2
      with Cons.IH obtain a b where "cs = a @ sub @ b" by blast
      then have "c # cs = (c # a) @ sub @ b" by simp
      then show ?thesis by blast
    qed
  next
    assume "\<exists>a b. c # cs = a @ sub @ b"
    then obtain a b where ab: "c # cs = a @ sub @ b" by blast
    show "py_in sub (c # cs)"
    proof (cases a)
      case Nil
      with ab have "startswith (c # cs) sub" by (simp add: startswith_iff)
      then show ?thesis by simp
    next
      case (Cons a0 a')
      with ab have "cs = a' @ sub @ b" by simp
      with Cons.IH have "py_in sub cs" by blast
      then show ?thesis by simp
    qed
  qed
qed

lemma py_in_single: "py_in [c] s \<longleftrightarrow> c \<in> set s"
  by (induction s) (auto simp: startswith_def)

lemma find_idx_None_iff: "find_idx sub s = None \<longleftrightarrow> \<not> py_in sub s"
  by (induction s) auto

lemma find_idx_startswith:
  "find_idx sub s = Some i \<Longrightarrow> startswith (drop i s) sub"
proof (induction s arbitrary: i)
  case Nil
  then show ?case by (simp split: if_splits)
next
  case (Cons c cs)
  then show ?case by (cases "startswith (c # cs) sub") auto
qed

lemma find_idx_decomp:
  assumes "find_idx sub s = Some i"
  shows "s = take i s @ sub @ drop (i + length sub) s"
proof -
  from find_idx_startswith [OF assms] obtain r where r: "drop i s = sub @ r"
    by (auto simp: startswith_iff)
  then have "drop (length sub) (drop i s) = r" by simp
  then have "drop (i + length sub) s = r" by (simp add: add.commute)
  with r have "drop i s = sub @ drop (i + length sub) s" by simp
  then show ?thesis by (metis append_take_drop_id)
qed

lemma find_idx_least:
  "find_idx sub s = Some i \<Longrightarrow> j < i \<Longrightarrow> \<not> startswith (drop j s) sub"
proof (induction s arbitrary: i j)
  case Nil
  then show ?case by (simp split: if_splits)
next
  case (Cons c cs)
  show ?case
  proof (cases "startswith (c # cs) sub")
    case True
    with Cons.prems show ?thesis by simp
  next
    case False
    with Cons.prems obtain k where k: "find_idx sub cs = Some k" "i = Suc k" by auto
    show ?thesis
    proof (cases j)
      case 0
      with False show ?thesis by simp
    next
      case (Suc j')
      with k Cons.prems have "j' < k" by simp
      from Cons.IH [OF k(1) this] Suc show ?thesis by simp
    qed
  qed
qed

lemma find_idx_single_first:
  "c \<notin> set x \<Longrightarrow> find_idx [c] (x @ c # r) = Some (length x)"
  by (induction x) (auto simp: startswith_def)

lemma find_idx_single_none:
  "c \<notin> set x \<Longrightarrow> find_idx [c] x = None"
  by (simp add: find_idx_None_iff py_in_single)

lemma split_sep_no_match:
  "\<not> py_in sep s \<Longrightarrow> split_sep sep s = [s]"
  by (simp add: split_sep.simps find_idx_None_iff [symmetric])

lemma split_sep_join_single:
  "list_all (\<lambda>x. c \<notin> set x) (x # xs) \<Longrightarrow> split_sep [c] (py_join [c] (x # xs)) = x # xs"
proof (induction xs arbitrary: x)
  case Nil
  then show ?case by (simp add: split_sep_no_match py_in_single)
next
  case (Cons y ys)
  from Cons.prems have x: "c \<notin> set x" and rest: "list_all (\<lambda>x. c \<notin> set x) (y # ys)"
    by simp_all
  have j: "py_join [c] (x # y # ys) = x @ c # py_join [c] (y # ys)" by simp
  have f: "find_idx [c] (x @ c # py_join [c] (y # ys)) = Some (length x)"
    using x by (rule find_idx_single_first)
  have "split_sep [c] (x @ c # py_join [c] (y # ys)) = x # split_sep [c] (py_join [c] (y # ys))"
    by (subst split_sep.simps) (simp add: f)
  with Cons.IH [OF rest] j show ?case by simp
qed

lemma py_join_decomp:
  "x \<in> set xs \<Longrightarrow> \<exists>a b. py_join sep xs = a @ x @ b"
proof (induction sep xs rule: py_join.induct)
  case (1 sep)
  then show ?case by simp
next
  case (2 sep y)
  then have "py_join sep [y] = [] @ x @ []" by simp
  then show ?case by blast
next
  case (3 sep y z zs)
  show ?case
  proof (cases "x = y")
    case True
    then have "py_join sep (y # z # zs) = [] @ x @ (sep @ py_join sep (z # zs))" by simp
    then show ?thesis by blast
  next
    case False
    with 3 obtain a b where "py_join sep (z # zs) = a @ x @ b" by auto
    then have "py_join sep (y # z # zs) = (y @ sep @ a) @ x @ b" by simp
    then show ?thesis by blast
  qed
qed

lemma py_in_join:
  assumes "x \<in> set xs" "py_in sub x"
  shows "py_in sub (py_join sep xs)"
proof -
  from assms(2) obtain a b where "x = a @ sub @ b" by (auto simp: py_in_iff)
  moreover from py_join_decomp [OF assms(1)] obtain a' b' where "py_join sep xs = a' @ x @ b'"
    by blast
  ultimately have "py_join sep xs = (a' @ a) @ sub @ (b @ b')" by simp
  then show ?thesis unfolding py_in_iff by blast
qed

lemma endswith_iff: "endswith s p \<longleftrightarrow> (\<exists>a. s = a @ p)"
proof
  assume "endswith s p"
  then have "s = take (length s - length p) s @ p"
    unfolding endswith_def by (metis append_take_drop_id)
  then show "\<exists>a. s = a @ p" ..
next
  assume "\<exists>a. s = a @ p"
  then show "endswith s p" by (auto simp: endswith_def)
qed

lemma endswith_single: "endswith s [c] \<longleftrightarrow> s \<noteq> [] \<and> last s = c"
proof
  assume "endswith s [c]"
  then show "s \<noteq> [] \<and> last s = c" by (auto simp: endswith_iff)
next
  assume a: "s \<noteq> [] \<and> last s = c"
  then have "s \<noteq> []" ..
  then have "butlast s @ [last s] = s" by (rule append_butlast_last_id)
  with a have "s = butlast s @ [c]" by metis
  then show "endswith s [c]" unfolding endswith_iff ..
qed





lemma with_period_newline: "CHR 0x0A \<notin> set f \<Longrightarrow> CHR 0x0A \<notin> set (with_period f)"
  by (simp add: with_period_def)

lemma rstrip_dot_decomp: "\<exists>k. s = rstrip_dot s @ replicate k (CHR ''.'')"
proof -
  define P where "P = (\<lambda>c. c = CHR ''.'')"
  have "rev s = takeWhile P (rev s) @ dropWhile P (rev s)" by simp
  then have "s = rev (dropWhile P (rev s)) @ rev (takeWhile P (rev s))"
    by (metis rev_append rev_rev_ident)
  moreover define t where "t = rev (takeWhile P (rev s))"
  moreover have "\<forall>c \<in> set t. c = CHR ''.''"
    unfolding t_def using set_takeWhileD [of _ P "rev s"] by (auto simp: P_def)
  then have "replicate (length t) (CHR ''.'') = t"
    by (rule replicate_length_same)
  ultimately have "s = rstrip_dot s @ replicate (length t) (CHR ''.'')"
    unfolding rstrip_dot_def P_def by simp
  then show ?thesis ..
qed

lemma rstrip_dot_no_period: "\<not> endswith (rstrip_dot s) ''.''"
proof -
  define P where "P = (\<lambda>c. c = CHR ''.'')"
  have "dropWhile P (rev s) = [] \<or> \<not> P (hd (dropWhile P (rev s)))"
    by (metis hd_dropWhile)
  then have "rstrip_dot s = [] \<or> last (rstrip_dot s) \<noteq> CHR ''.''"
    unfolding rstrip_dot_def P_def by (auto simp: last_rev)
  then show ?thesis by (auto simp: endswith_single)
qed

lemma rstrip_dot_set: "set (rstrip_dot s) \<subseteq> set s"
  unfolding rstrip_dot_def using set_dropWhileD [of _ _ "rev s"] by auto

lemma rstrip_dot_keep:
  "c \<noteq> CHR ''.'' \<Longrightarrow> rstrip_dot (a @ c # b) = a @ c # rstrip_dot b"
proof -
  assume c: "c \<noteq> CHR ''.''"
  define P where "P = (\<lambda>c. c = CHR ''.'')"
  have "dropWhile P (rev b @ c # rev a) = dropWhile P (rev b) @ c # rev a"
  proof (cases "\<forall>x \<in> set (rev b). P x")
    case True
    then have "dropWhile P (rev b) = []" by simp
    moreover from True have "dropWhile P (rev b @ c # rev a) = dropWhile P (c # rev a)"
      by (intro dropWhile_append2) blast
    ultimately show ?thesis using c by (simp add: P_def)
  next
    case False
    then obtain x where "x \<in> set (rev b)" "\<not> P x" by blast
    then show ?thesis by (simp add: dropWhile_append1)
  qed
  then show ?thesis unfolding rstrip_dot_def P_def by simp
qed

lemma digit_char_digit: "d < 10 \<Longrightarrow> digit_char d \<in> set ''0123456789''"
proof -
  assume "d < 10"
  then have "d < length ''0123456789''" by simp
  then show ?thesis unfolding digit_char_def by (rule nth_mem)
qed

lemma str_nat_digits: "set (str_nat n) \<subseteq> set ''0123456789''"
proof (induction n rule: str_nat.induct)
  case (1 n)
  show ?case
  proof (cases "n < 10")
    case True
    then show ?thesis using digit_char_digit [of n] by (subst str_nat.simps) simp
  next
    case False
    have "n mod 10 < 10" by simp
    from digit_char_digit [OF this] "1.IH" [OF False] False show ?thesis
      by (subst str_nat.simps) simp
  qed
qed

lemma str_int_newline: "CHR 0x0A \<notin> set (str_int d)"
proof -
  have "CHR 0x0A \<notin> set ''0123456789''" by simp
  with str_nat_digits have "\<And>n. CHR 0x0A \<notin> set (str_nat n)" by blast
  then show ?thesis by (simp add: str_int_def)
qed

subsection \<open>The lines of a generated input\<close>


lemma Mace4_lines:
  assumes "list_all (\<lambda>f. CHR 0x0A \<notin> set f) premises"
    and "case mgoal of None \<Rightarrow> True | Some g \<Rightarrow> CHR 0x0A \<notin> set g"
  shows "split_sep nl (Mace4_input_content premises mgoal dsize) = Mace4_content premises mgoal dsize"
proof -
  have a: "list_all (\<lambda>f. CHR 0x0A \<notin> set f) (map with_period premises)"
    using assms(1) by (simp add: list_all_iff with_period_newline)
  have g: "list_all (\<lambda>f. CHR 0x0A \<notin> set f)
      (case mgoal of None \<Rightarrow> []
       | Some g \<Rightarrow> if g = [] then []
           else [''formulas(goals).'', (''-(('' @ rstrip_dot g @ ''))'') @ ''.'', ''end_of_list.''])"
    using assms(2) rstrip_dot_set by (auto split: option.splits)
  have d: "list_all (\<lambda>f. CHR 0x0A \<notin> set f)
      (case dsize of Some d \<Rightarrow> [''assign(domain_size, '' @ str_int d @ '').'']
       | None \<Rightarrow> [''assign(domain_size, 2).'', ''assign(end_size, 10).''])"
    using str_int_newline by (simp split: option.splits)
  from a g d have all: "list_all (\<lambda>f. CHR 0x0A \<notin> set f) (Mace4_content premises mgoal dsize)"
    unfolding Mace4_content_def by simp
  have "Mace4_content premises mgoal dsize \<noteq> []"
    unfolding Mace4_content_def by simp
  then obtain x xs where xs: "Mace4_content premises mgoal dsize = x # xs"
    by (cases "Mace4_content premises mgoal dsize") auto
  from split_sep_join_single [of "CHR 0x0A" x xs] all xs show ?thesis
    by (simp add: Mace4_input_content_def nl_def)
qed

subsection \<open>The runner: cleanup and exception handling\<close>

lemma unlink_files:
  "files (snd (unlink p w)) =
     (if files w p \<noteq> None \<and> p \<notin> undeletable w then (files w)(p := None) else files w)"
  by (simp add: unlink_def)

lemma unlink_undeletable: "undeletable (snd (unlink p w)) = undeletable w"
  by (simp add: unlink_def)

lemma unlink_raises_OSError:
  "fst (unlink p w) = Inl e \<Longrightarrow> is_OSError (exn_class_of e)"
  by (auto simp: unlink_def is_OSError_def split: if_splits)

lemma prover_cleanup_returns: "fst (prover_cleanup p w) = Inr ()"
  by (cases "unlink p w"; cases "fst (unlink p w)") (auto simp: prover_cleanup_def try_except_def)

lemma prover_cleanup_world: "snd (prover_cleanup p w) = snd (unlink p w)"
  by (cases "unlink p w"; cases "fst (unlink p w)") (auto simp: prover_cleanup_def try_except_def)

lemma mace4_cleanup_returns: "fst (mace4_cleanup p w) = Inr ()"
proof (cases "fst (unlink p w)")
  case (Inl e)
  then have "is_OSError (exn_class_of e)" by (rule unlink_raises_OSError)
  with Inl show ?thesis
    by (cases "unlink p w") (simp add: mace4_cleanup_def try_except_def)
next
  case (Inr u)
  then show ?thesis
    by (cases "unlink p w") (simp add: mace4_cleanup_def try_except_def)
qed

lemma mace4_cleanup_world: "snd (mace4_cleanup p w) = snd (unlink p w)"
  by (cases "unlink p w"; cases "fst (unlink p w)") (auto simp: mace4_cleanup_def try_except_def)

lemma try_finally_quiet:
  assumes "\<And>w. fst (fin w) = Inr ()"
  shows "try_finally body fin w = (fst (body w), snd (fin (snd (body w))))"
proof -
  obtain r w1 where b: "body w = (r, w1)" by (cases "body w")
  obtain f w2 where f: "fin w1 = (f, w2)" by (cases "fin w1")
  with assms [of w1] have "f = Inr ()" by simp
  with b f show ?thesis by (simp add: try_finally_def)
qed

lemma run_prover_eq:
  "LogicEngine_run_prover spawn p t w =
     (fst (try_except (run_prover_try spawn) (run_prover_except t) w),
      snd (unlink p (snd (try_except (run_prover_try spawn) (run_prover_except t) w))))"
  unfolding LogicEngine_run_prover_def
  by (simp add: try_finally_quiet prover_cleanup_returns prover_cleanup_world)

lemma run_mace4_eq:
  "Mace4Wrapper_run_mace4 spawn p t w =
     (fst (try_except (run_mace4_try spawn) (run_mace4_except t) w),
      snd (unlink p (snd (try_except (run_mace4_try spawn) (run_mace4_except t) w))))"
  unfolding Mace4Wrapper_run_mace4_def
  by (simp add: try_finally_quiet mace4_cleanup_returns mace4_cleanup_world)

lemma prover_body_world:
  "snd (try_except (run_prover_try spawn) (run_prover_except t) w) = snd (spawn w)"
  by (cases "spawn w"; cases "fst (spawn w)")
     (auto simp: try_except_def run_prover_try_def split: sum.splits prod.splits)

lemma mace4_body_world:
  "snd (try_except (run_mace4_try spawn) (run_mace4_except t) w) = snd (spawn w)"
  by (cases "spawn w"; cases "fst (spawn w)")
     (auto simp: try_except_def run_mace4_try_def split: sum.splits prod.splits)

lemma prover_body_returns:
  "\<exists>d. fst (try_except (run_prover_try spawn) (run_prover_except t) w) = Inr d"
  by (cases "spawn w"; cases "fst (spawn w)")
     (auto simp: try_except_def run_prover_try_def run_prover_except_def
           split: sum.splits prod.splits)

lemma mace4_body_returns:
  "\<exists>d. fst (try_except (run_mace4_try spawn) (run_mace4_except t) w) = Inr d"
  by (cases "spawn w"; cases "fst (spawn w)")
     (auto simp: try_except_def run_mace4_try_def run_mace4_except_def
           split: sum.splits prod.splits)

lemma prover_body_raised:
  "spawn w = (Inl e, w1) \<Longrightarrow>
     fst (try_except (run_prover_try spawn) (run_prover_except t) w) = run_prover_except t e"
  by (simp add: try_except_def run_prover_try_def)

lemma prover_body_completed:
  "spawn w = (Inr r, w1) \<Longrightarrow>
     fst (try_except (run_prover_try spawn) (run_prover_except t) w) =
       (case classify_prover (stdout r) (stderr r) of
          Inl e \<Rightarrow> run_prover_except t e | Inr d \<Rightarrow> Inr d)"
  by (simp add: try_except_def run_prover_try_def split: sum.splits)

lemma mace4_body_raised:
  "spawn w = (Inl e, w1) \<Longrightarrow>
     fst (try_except (run_mace4_try spawn) (run_mace4_except t) w) = run_mace4_except t e"
  by (simp add: try_except_def run_mace4_try_def)

lemma mace4_body_completed:
  "spawn w = (Inr r, w1) \<Longrightarrow>
     fst (try_except (run_mace4_try spawn) (run_mace4_except t) w) =
       Inr (classify_mace4 (stdout r) (stderr r))"
  by (simp add: try_except_def run_mace4_try_def)

subsection \<open>Splitting and the proof extraction\<close>

lemma split_sep_hd:
  assumes "sep \<noteq> []"
  shows "split_sep sep s =
     (case find_idx sep s of
        None \<Rightarrow> [s]
      | Some i \<Rightarrow> take i s # split_sep sep (drop (i + length sep) s))"
  using assms by (subst split_sep.simps) simp

lemma split_sep_first:
  assumes "sep \<noteq> []"
  shows "\<exists>rest. split_sep sep s = text_before sep s # rest"
  using assms by (subst split_sep.simps) (simp add: text_before_def split: option.splits)

lemma py_index_split_0:
  assumes "sep \<noteq> []"
  shows "py_index (split_sep sep s) 0 = Inr (text_before sep s)"
proof -
  from split_sep_first [OF assms] obtain rest where "split_sep sep s = text_before sep s # rest"
    by blast
  then show ?thesis by (simp add: py_index_def)
qed

lemma py_index_split_1:
  assumes "sep \<noteq> []"
  shows "py_index (split_sep sep s) 1 =
     (case find_idx sep s of
        None \<Rightarrow> Inl (Exn IndexError ''list index out of range'')
      | Some i \<Rightarrow> Inr (text_before sep (drop (i + length sep) s)))"
proof (cases "find_idx sep s")
  case None
  with assms have "split_sep sep s = [s]" by (simp add: split_sep_hd)
  with None show ?thesis by (simp add: py_index_def)
next
  case (Some i)
  from split_sep_first [OF assms] obtain rest
    where "split_sep sep (drop (i + length sep) s) = text_before sep (drop (i + length sep) s) # rest"
    by blast
  with Some assms have "split_sep sep s = take i s # text_before sep (drop (i + length sep) s) # rest"
    by (simp add: split_sep_hd)
  with Some show ?thesis by (simp add: py_index_def)
qed

lemma classify_prover_proved:
  assumes "py_in ''THEOREM PROVED'' out"
  shows "classify_prover out err =
     (case find_idx ''PROOF ='' out of
        None \<Rightarrow> Inl (Exn IndexError ''list index out of range'')
      | Some i \<Rightarrow>
          Inr [(''result'', ''proved''),
               (''proof'', strip (text_before ''===='' (text_before ''PROOF ='' (drop (i + length ''PROOF ='') out)))),
               (''complete_output'', out)])"
proof -
  have one: "py_index (split_sep ''PROOF ='' out) 1 =
     (case find_idx ''PROOF ='' out of
        None \<Rightarrow> Inl (Exn IndexError ''list index out of range'')
      | Some i \<Rightarrow> Inr (text_before ''PROOF ='' (drop (i + length ''PROOF ='') out)))"
    using py_index_split_1 [of "''PROOF =''" out] by simp
  have zero: "\<And>seg. py_index (split_sep ''===='' seg) 0 = Inr (text_before ''===='' seg)"
    by (rule py_index_split_0) simp
  show ?thesis
    unfolding classify_prover_def one zero using assms
    by (simp split: option.splits)
qed

subsection \<open>Parsing a model\<close>

lemma domain_size_step_fields:
  "domain_size (domain_size_step l m) =
     (case (if py_in ''DOMAIN SIZE'' l \<and> split_ws l \<noteq> [] then py_int (last (split_ws l)) else None) of
        None \<Rightarrow> domain_size m | Some n \<Rightarrow> Some n)"
  "raw_interpretation (domain_size_step l m) = raw_interpretation m"
  by (auto simp: domain_size_step_def split: list.splits option.splits)

lemma fold_domain_size_step:
  "domain_size (fold domain_size_step ls m) =
     (if domain_size_candidates ls = [] then domain_size m
      else Some (last (domain_size_candidates ls)))
   \<and> raw_interpretation (fold domain_size_step ls m) = raw_interpretation m"
proof (induction ls arbitrary: m)
  case Nil
  show ?case by (simp add: domain_size_candidates_def)
next
  case (Cons l ls)
  define c where "c = (if py_in ''DOMAIN SIZE'' l \<and> split_ws l \<noteq> []
                       then py_int (last (split_ws l)) else None)"
  have cands: "domain_size_candidates (l # ls) =
      (case c of None \<Rightarrow> domain_size_candidates ls | Some n \<Rightarrow> n # domain_size_candidates ls)"
    unfolding domain_size_candidates_def c_def by (simp add: map_filter_simps)
  have d: "domain_size (domain_size_step l m) = (case c of None \<Rightarrow> domain_size m | Some n \<Rightarrow> Some n)"
    unfolding c_def by (rule domain_size_step_fields)
  have r: "raw_interpretation (domain_size_step l m) = raw_interpretation m"
    by (rule domain_size_step_fields)
  from Cons.IH [of "domain_size_step l m"] cands d r show ?case
    by (cases c) auto
qed

lemma relation_step_fields:
  "domain_size (relation_step l m) = domain_size m"
  "raw_interpretation (relation_step l m) =
     raw_interpretation m @
     (if startswith (strip l) ''function('' \<or> startswith (strip l) ''relation(''
      then nl @ strip l else [])"
  by (simp_all add: relation_step_def Let_def)

lemma fold_relation_step:
  "domain_size (fold relation_step ls m) = domain_size m
   \<and> raw_interpretation (fold relation_step ls m) =
       raw_interpretation m @
       concat (map (\<lambda>l. nl @ l)
         (filter (\<lambda>l. startswith l ''function('' \<or> startswith l ''relation('') (map strip ls)))"
proof (induction ls arbitrary: m)
  case Nil
  show ?case by simp
next
  case (Cons l ls)
  from Cons.IH [of "relation_step l m"] show ?case
    by (simp add: relation_step_fields)
qed

lemma py_find_from_start:
  "py_find s sub 0 = (case find_idx sub s of None \<Rightarrow> - 1 | Some i \<Rightarrow> int i)"
  by (simp add: py_find_def Let_def split: option.splits)

lemma py_find_from:
  assumes "i \<le> length s"
  shows "py_find s sub (int i) =
     (case find_idx sub (drop i s) of None \<Rightarrow> - 1 | Some j \<Rightarrow> int i + int j)"
  using assms by (simp add: py_find_def Let_def split: option.splits)

lemma py_slice_nat:
  "py_slice s (int a) (int a + int b) = take b (drop a s)"
proof -
  have "nat (int a + int b) = a + b" by simp
  then have "py_slice s (int a) (int a + int b) = drop a (take (a + b) s)"
    by (simp add: py_slice_def Let_def)
  also have "\<dots> = take b (drop a s)" by (simp add: drop_take)
  finally show ?thesis .
qed

lemma interpretation_before_end_of_list:
  assumes "find_idx ''interpretation('' out = Some i"
    and "find_idx ''end_of_list'' (drop i out) = Some j"
  shows "0 < j"
proof (rule ccontr)
  assume "\<not> 0 < j"
  then have j: "j = 0" by simp
  from find_idx_startswith [OF assms(1)] obtain r where "drop i out = ''interpretation('' @ r"
    by (auto simp: startswith_iff)
  moreover from find_idx_startswith [OF assms(2)] j obtain r' where "drop i out = ''end_of_list'' @ r'"
    by (auto simp: startswith_iff)
  ultimately show False by simp
qed

lemma parse_model_domain_size:
  "domain_size (parse_model out) =
     (if domain_size_candidates (split_sep nl out) = [] then None
      else Some (last (domain_size_candidates (split_sep nl out))))"
  using fold_domain_size_step [of "split_sep nl out"]
  by (simp add: parse_model_def Let_def fold_relation_step)

lemma parse_model_raw:
  assumes "find_idx ''interpretation('' out = Some i"
  shows "raw_interpretation (parse_model out) =
     (case find_idx ''end_of_list'' (drop i out) of
        None \<Rightarrow> ''''
      | Some j \<Rightarrow>
          strip (take (j + length ''end_of_list'') (drop i out)) @
          relation_lines (take (j + length ''end_of_list'') (drop i out)))"
proof -
  have inn: "py_in ''interpretation('' out"
    using assms find_idx_None_iff [of "''interpretation(''" out] by simp
  have i: "i \<le> length out" using find_idx_bound [OF assms] by simp
  have start: "py_find out ''interpretation('' 0 = int i"
    using assms by (simp add: py_find_from_start)
  have endp: "py_find out ''end_of_list'' (int i) =
     (case find_idx ''end_of_list'' (drop i out) of None \<Rightarrow> - 1 | Some j \<Rightarrow> int i + int j)"
    using i by (rule py_find_from)
  have raw1: "raw_interpretation (fold domain_size_step (split_sep nl out)
      \<lparr>domain_size = None, model_predicates = [], model_functions = [],
        model_constants = [], raw_interpretation = ''''\<rparr>) = ''''"
    using fold_domain_size_step [of "split_sep nl out"] by simp
  show ?thesis
  proof (cases "find_idx ''end_of_list'' (drop i out)")
    case None
    with endp have "py_find out ''end_of_list'' (int i) = - 1" by simp
    with None inn start raw1 show ?thesis
      by (simp add: parse_model_def Let_def)
  next
    case (Some j)
    from interpretation_before_end_of_list [OF assms Some] have j: "0 < j" .
    from Some endp have e: "py_find out ''end_of_list'' (int i) = int i + int j" by simp
    have sl: "py_slice out (int i) (int i + int j + int (length ''end_of_list'')) =
        take (j + length ''end_of_list'') (drop i out)"
    proof -
      have "int i + int j + int (length ''end_of_list'') = int i + int (j + length ''end_of_list'')"
        by (simp only: of_nat_add add.assoc)
      then show ?thesis by (simp only: py_slice_nat)
    qed
    have gt: "int i + int j > int i" using j by simp
    show ?thesis
      unfolding parse_model_def Let_def start e sl relation_lines_def
      using Some inn gt raw1 by (simp add: fold_relation_step)
  qed
qed

subsection \<open>The validator's scan for names\<close>

lemmas char_class_defs =
  between_def is_space_def is_digit_def is_ident_start_def is_ident_char_def is_word_def

lemma paren_not_ident: "\<not> is_ident_char (CHR ''('')"
  by (simp add: char_class_defs)

lemma paren_not_space: "\<not> is_space (CHR ''('')"
  by (simp add: char_class_defs)

lemma ident_char_cases:
  assumes "is_ident_char c" "c \<noteq> CHR ''_''"
  shows "between 65 90 c \<or> between 97 122 c \<or> between 48 57 c"
  using assms by (auto simp: is_ident_char_def is_ident_start_def is_digit_def)

lemma ident_char_word: "is_ident_char c \<Longrightarrow> is_word c"
proof (cases "c = CHR ''_''")
  case True
  then show ?thesis by (simp add: char_class_defs)
next
  case False
  assume "is_ident_char c"
  from ident_char_cases [OF this False] show ?thesis unfolding is_word_def by blast
qed

lemma ident_start_ident_char: "is_ident_start c \<Longrightarrow> is_ident_char c"
  by (simp add: is_ident_char_def)

lemma ident_char_not_space: "is_ident_char c \<Longrightarrow> \<not> is_space c"
proof (cases "c = CHR ''_''")
  case True
  then show ?thesis by (simp add: char_class_defs)
next
  case False
  assume "is_ident_char c"
  from ident_char_cases [OF this False] show ?thesis
    unfolding is_space_def between_def by arith
qed

lemma last_dropWhile_same:
  "dropWhile P xs \<noteq> [] \<Longrightarrow> last (dropWhile P xs) = last xs"
  by (induction xs) (auto split: if_splits)

lemma naming_match_here:
  assumes "name \<noteq> []" "is_ident_start (hd name)" "\<forall>c \<in> set name. is_ident_char c"
    and "\<forall>c \<in> set ws. is_space c"
  shows "naming_match (name @ ws @ CHR ''('' # b) = Some (name, b)"
proof -
  have nw: "\<not> is_ident_char (hd (ws @ CHR ''('' # b))"
    using assms(4) paren_not_ident ident_char_not_space by (cases ws) auto
  have tw: "takeWhile is_ident_char (name @ ws @ CHR ''('' # b) = name"
  proof -
    have "takeWhile is_ident_char (name @ ws @ CHR ''('' # b) =
        name @ takeWhile is_ident_char (ws @ CHR ''('' # b)"
      using assms(3) by (simp add: takeWhile_append2)
    moreover have "takeWhile is_ident_char (ws @ CHR ''('' # b) = []"
      using nw by (cases "ws @ CHR ''('' # b") auto
    ultimately show ?thesis by simp
  qed
  have dw: "dropWhile is_ident_char (name @ ws @ CHR ''('' # b) = ws @ CHR ''('' # b"
  proof -
    have "dropWhile is_ident_char (name @ ws @ CHR ''('' # b) =
        dropWhile is_ident_char (ws @ CHR ''('' # b)"
      using assms(3) by (simp add: dropWhile_append2)
    moreover have "dropWhile is_ident_char (ws @ CHR ''('' # b) = ws @ CHR ''('' # b"
      using nw by (cases "ws @ CHR ''('' # b") auto
    ultimately show ?thesis by simp
  qed
  have ds: "dropWhile is_space (ws @ CHR ''('' # b) = CHR ''('' # b"
    using assms(4) paren_not_space by (simp add: dropWhile_append2)
  show ?thesis
    unfolding naming_match_def Let_def tw dw ds using assms(1,2) by simp
qed

lemma naming_match_rest:
  assumes m: "naming_match (a @ t) = Some (n', rest)"
    and a: "a \<noteq> []" "\<not> is_word (last a)"
    and t: "t \<noteq> []" "\<not> is_space (hd t)" "hd t \<noteq> CHR ''(''"
  shows "\<exists>a'. rest = a' @ t \<and> (a' = [] \<or> \<not> is_word (last a'))"
proof -
  define a1 where "a1 = dropWhile is_ident_char a"
  have la: "last a \<in> set a" using a(1) by simp
  have li: "\<not> is_ident_char (last a)" using a(2) ident_char_word by blast
  from la have dw: "dropWhile is_ident_char (a @ t) = a1 @ t"
    unfolding a1_def using li by (simp add: dropWhile_append1)
  have a1: "a1 \<noteq> []" "last a1 = last a"
  proof -
    show "a1 \<noteq> []" unfolding a1_def using la li by (auto simp: dropWhile_eq_Nil_conv)
    then show "last a1 = last a" unfolding a1_def by (rule last_dropWhile_same)
  qed
  define r where "r = dropWhile is_space (a1 @ t)"
  from m have r: "r \<noteq> []" "hd r = CHR ''(''" "rest = tl r"
    unfolding naming_match_def Let_def dw r_def by (auto split: if_splits)
  show ?thesis
  proof (cases "\<forall>c \<in> set a1. is_space c")
    case True
    then have "r = dropWhile is_space t" unfolding r_def by (simp add: dropWhile_append2)
    also have "\<dots> = t" using t(1,2) by (cases t) auto
    finally show ?thesis using r(2) t(3) by simp
  next
    case False
    define a2 where "a2 = dropWhile is_space a1"
    from False have r2: "r = a2 @ t"
      unfolding r_def a2_def by (auto simp: dropWhile_append1)
    from False have a2: "a2 \<noteq> []" unfolding a2_def by (simp add: dropWhile_eq_Nil_conv)
    have l2: "last a2 = last a1"
      using a2 unfolding a2_def by (rule last_dropWhile_same)
    from r2 a2 r(3) have rest: "rest = tl a2 @ t" by (cases a2) auto
    have "tl a2 = [] \<or> last (tl a2) = last a2" using a2 by (cases a2) auto
    with l2 a1(2) a(2) have "tl a2 = [] \<or> \<not> is_word (last (tl a2))" by auto
    with rest show ?thesis by blast
  qed
qed

lemma naming_finditer_finds:
  assumes n: "name \<noteq> []" "is_ident_start (hd name)" "\<forall>c \<in> set name. is_ident_char c"
    and ws: "\<forall>c \<in> set ws. is_space c"
  shows "s = a @ name @ ws @ CHR ''('' # b \<Longrightarrow>
         (if a = [] then \<not> prevw else \<not> is_word (last a)) \<Longrightarrow>
         name \<in> set (naming_finditer prevw s)"
proof (induction prevw s arbitrary: a rule: naming_finditer.induct)
  case (1 prevw)
  then show ?case by simp
next
  case (2 prevw c cs)
  define t where "t = name @ ws @ CHR ''('' # b"
  have t: "t \<noteq> []" "\<not> is_space (hd t)" "hd t \<noteq> CHR ''(''"
    using n(1,2) ident_start_ident_char ident_char_not_space paren_not_ident
    unfolding t_def by (cases name; auto)+
  have s: "c # cs = a @ t" using "2.prems"(1) unfolding t_def by simp
  show ?case
  proof (cases a)
    case Nil
    with "2.prems"(2) have "\<not> prevw" by simp
    moreover from Nil s have "naming_match (c # cs) = Some (name, b)"
      unfolding t_def using naming_match_here [OF n ws] by simp
    ultimately show ?thesis by simp
  next
    case (Cons a0 a')
    with "2.prems"(2) have la: "\<not> is_word (last a)" by simp
    from Cons s have c: "c = a0" and cs: "cs = a' @ t" by simp_all
    show ?thesis
    proof (cases "if prevw then None else naming_match (c # cs)")
      case None
      have "if a' = [] then \<not> is_word c else \<not> is_word (last a')"
        using la Cons c by auto
      from "2.IH"(1) [OF None cs [unfolded t_def] this] None show ?thesis by simp
    next
      case (Some x2)
      obtain n' rest where x2: "x2 = (n', rest)" by (cases x2)
      from Some x2 have m: "naming_match (a @ t) = Some (n', rest)"
        using s by (simp split: if_splits)
      from naming_match_rest [OF m _ la t] Cons
      obtain a'' where a'': "rest = a'' @ t" "a'' = [] \<or> \<not> is_word (last a'')" by auto
      then have "if a'' = [] then \<not> False else \<not> is_word (last a'')" by auto
      from "2.IH"(2) [OF Some x2 [symmetric] a''(1) [unfolded t_def] this]
      have "name \<in> set (naming_finditer False rest)" .
      with Some x2 show ?thesis by simp
    qed
  qed
qed

lemma naming_step_errors:
  "errors (naming_step n v) =
     errors v @
     (if n \<notin> QUANTIFIERS \<and> n \<in> RESERVED
      then [sq @ n @ sq @ '' is a reserved keyword and cannot be used as a predicate/function'']
      else [])"
  by (simp add: naming_step_def Let_def)

lemma fold_naming_step_mono:
  "set (errors v) \<subseteq> set (errors (fold naming_step ns v))"
proof (induction ns arbitrary: v)
  case Nil
  show ?case by simp
next
  case (Cons n ns)
  have "set (errors v) \<subseteq> set (errors (naming_step n v))" by (simp add: naming_step_errors)
  with Cons [of "naming_step n v"] show ?case by auto
qed

lemma fold_naming_step_reports:
  assumes "n \<in> set ns" "n \<notin> QUANTIFIERS" "n \<in> RESERVED"
  shows "sq @ n @ sq @ '' is a reserved keyword and cannot be used as a predicate/function''
           \<in> set (errors (fold naming_step ns v))"
  using assms(1)
proof (induction ns arbitrary: v)
  case Nil
  then show ?case by simp
next
  case (Cons m ns)
  show ?case
  proof (cases "n = m")
    case True
    then have "sq @ n @ sq @ '' is a reserved keyword and cannot be used as a predicate/function''
        \<in> set (errors (naming_step m v))"
      using assms(2,3) by (simp add: naming_step_errors)
    with fold_naming_step_mono [of "naming_step m v" ns] show ?thesis by auto
  next
    case False
    with Cons.prems have "n \<in> set ns" by simp
    from Cons.IH [OF this, of "naming_step m v"] show ?thesis by simp
  qed
qed

lemma check_common_mistakes_errors:
  "errors (check_common_mistakes f v) =
     errors v @
     (if py_in ''()'' f
      then [''Empty parentheses found - predicates and functions must have arguments'']
      else [])"
  by (simp add: check_common_mistakes_def Let_def)

subsection \<open>The prover's result for a completed run\<close>

lemma run_prover_completed:
  assumes "spawn w = (Inr \<lparr>stdout = out, stderr = err\<rparr>, w1)"
  shows "fst (LogicEngine_run_prover spawn p t w) =
     (if py_in ''THEOREM PROVED'' out then
        (case find_idx ''PROOF ='' out of
           None \<Rightarrow> Inr [(''result'', ''error''), (''reason'', ''list index out of range'')]
         | Some i \<Rightarrow>
             Inr [(''result'', ''proved''),
                  (''proof'', strip (text_before ''====''
                     (text_before ''PROOF ='' (drop (i + length ''PROOF ='') out)))),
                  (''complete_output'', out)])
      else if py_in ''SEARCH FAILED'' out then
        Inr [(''result'', ''unprovable''), (''reason'', ''Proof search failed''),
             (''complete_output'', out)]
      else if py_in ''Fatal error'' err then
        Inr [(''result'', ''error''), (''reason'', ''Syntax error''), (''error'', err)]
      else
        Inr [(''result'', ''error''), (''reason'', ''Unexpected output''),
             (''output'', out), (''error'', err)])"
proof -
  have r: "fst (LogicEngine_run_prover spawn p t w) =
      (case classify_prover out err of Inl e \<Rightarrow> run_prover_except t e | Inr d \<Rightarrow> Inr d)"
    using prover_body_completed [of spawn w "\<lparr>stdout = out, stderr = err\<rparr>" w1 t] assms
    by (simp add: run_prover_eq)
  show ?thesis
  proof (cases "py_in ''THEOREM PROVED'' out")
    case True
    from classify_prover_proved [OF True, of err] r True show ?thesis
      by (cases "find_idx ''PROOF ='' out") (simp_all add: run_prover_except_def)
  next
    case False
    with r show ?thesis by (simp add: classify_prover_def)
  qed
qed

lemma run_prover_raised:
  assumes "spawn w = (Inl e, w1)"
  shows "fst (LogicEngine_run_prover spawn p t w) = run_prover_except t e"
  using prover_body_raised [of spawn w e w1 t] assms by (simp add: run_prover_eq)

lemma run_prover_returns:
  "\<exists>results. fst (LogicEngine_run_prover spawn p t w) = Inr results"
  using prover_body_returns [of spawn t w] by (simp add: run_prover_eq)

subsection \<open>Characters beyond ASCII and long numbers\<close>

text \<open>
  The no-break space and the next-line character are whitespace for \<open>strip\<close> and
  \<open>split\<close>, an accented letter is a word character for \<open>\b\<close>, and a text of more than
  4300 digits is no integer.
\<close>

lemma strip_latin1_example: "strip ([CHR 0xA0] @ ''abc'' @ [CHR 0x85]) = ''abc''"
  by code_simp

lemma proof_trimmed_latin1_example:
  "dict_get (projr (classify_prover
       (''THEOREM PROVED PROOF ='' @ [CHR 0xA0] @ ''abc'' @ [CHR 0x85] @ ''===='') ''''))
     ''proof'' ''?'' = ''abc''"
  by code_simp

lemma domain_size_nbsp_example:
  "domain_size (parse_model (''DOMAIN SIZE'' @ [CHR 0xA0] @ ''2'' @ nl @ ''interpretation('')) =
     Some 2"
  by code_simp

lemma accented_prefix_example:
  "validate AllFirst ([CHR 0xE9] @ ''true(x)'') = (True, [], [])
   \<and> fst (validate AllFirst ([CHR 0xE9] @ '' true(x)'')) = False"
  by code_simp

lemma py_int_digit_limit:
  assumes "list_all is_digit s" "int_max_str_digits < length s"
  shows "py_int s = None"
proof -
  from assms(2) have ne: "s \<noteq> []" by auto
  have nsp: "\<And>c. is_digit c \<Longrightarrow> \<not> is_int_space c"
    unfolding is_digit_def is_int_space_def between_def by arith
  have d: "\<forall>c \<in> set s. is_digit c" using assms(1) by (simp add: list_all_iff)
  have "hd s \<in> set s" "last s \<in> set s" using ne by simp_all
  with d nsp have h: "\<not> is_int_space (hd s)" "\<not> is_int_space (last s)" by blast+
  have "dropWhile is_int_space (rev s) = rev s"
    using ne h(2) by (cases "rev s") (auto simp: hd_rev)
  then have st: "int_strip s = s"
    using ne h(1) by (cases s) (auto simp: int_strip_def)
  have sign: "hd s \<noteq> CHR ''-''" "hd s \<noteq> CHR ''+''"
  proof -
    have "is_digit (hd s)" using d \<open>hd s \<in> set s\<close> by blast
    then show "hd s \<noteq> CHR ''-''" "hd s \<noteq> CHR ''+''"
      by (auto simp: is_digit_def between_def)
  qed
  have "\<not> is_digit (CHR ''_'')" by (simp add: is_digit_def between_def)
  with d have "CHR ''_'' \<notin> set s" by blast
  then have sp: "split_sep ''_'' s = [s]"
    by (simp add: split_sep_no_match py_in_single)
  show ?thesis
    unfolding py_int_def Let_def st using ne sign sp assms(2) by simp
qed

section \<open>The input builders: period termination and the negated goal\<close>




text \<open>
  C1, in the form that holds of the code.
  For every non-empty goal, the lines of the model finder's input are
  the lines of the input without a goal followed by the goals block, whose only formula
  line is \<open>-((g)).\<close> with \<open>g\<close> the goal stripped of all its trailing periods; the text
  handed to the solver contains that line, and splits into exactly these lines when no
  formula has a line break.  For the goal \<open>P(b)\<close> the line is \<open>-((P(b))).\<close>, the text
  contains \<open>-((P(b)))\<close>, and \<open>P(b).\<close> is no line of the goals block.
\<close>

theorem counterexample_goal_negated:
  assumes "goal \<noteq> []"
  shows "Mace4_content premises (Some goal) dsize =
           Mace4_content premises None dsize @
           [''formulas(goals).'', ''-(('' @ rstrip_dot goal @ '')).'', ''end_of_list.'']
       \<and> (\<exists>k. goal = rstrip_dot goal @ replicate k (CHR ''.''))
       \<and> \<not> endswith (rstrip_dot goal) ''.''
       \<and> py_in (''-(('' @ rstrip_dot goal @ '')).'')
            (find_counterexample_input premises goal dsize)
       \<and> (list_all (\<lambda>f. CHR 0x0A \<notin> set f) (goal # premises) \<longrightarrow>
            split_sep nl (find_counterexample_input premises goal dsize) =
              Mace4_content premises None dsize @
              [''formulas(goals).'', ''-(('' @ rstrip_dot goal @ '')).'', ''end_of_list.''])
       \<and> Mace4_content premises (Some ''P(b)'') dsize =
           Mace4_content premises None dsize @
           [''formulas(goals).'', ''-((P(b))).'', ''end_of_list.'']
       \<and> py_in ''-((P(b)))'' (find_counterexample_input premises ''P(b)'' dsize)
       \<and> ''P(b).'' \<notin> set (drop (length (Mace4_content premises None dsize))
                              (Mace4_content premises (Some ''P(b)'') dsize))"
proof -
  have c: "\<And>g. g \<noteq> [] \<Longrightarrow> Mace4_content premises (Some g) dsize =
           Mace4_content premises None dsize @
           [''formulas(goals).'', ''-(('' @ rstrip_dot g @ '')).'', ''end_of_list.'']"
    by (simp add: Mace4_content_def)
  have i: "\<And>g. g \<noteq> [] \<Longrightarrow>
      py_in (''-(('' @ rstrip_dot g @ '')).'') (find_counterexample_input premises g dsize)"
  proof -
    fix g :: string
    assume g: "g \<noteq> []"
    have "py_in (''-(('' @ rstrip_dot g @ '')).'') (''-(('' @ rstrip_dot g @ '')).'')"
      unfolding py_in_iff by (metis append_Nil append_Nil2)
    moreover have "''-(('' @ rstrip_dot g @ '')).'' \<in> set (Mace4_content premises (Some g) dsize)"
      by (simp add: c [OF g])
    ultimately show "py_in (''-(('' @ rstrip_dot g @ '')).'')
        (find_counterexample_input premises g dsize)"
      unfolding find_counterexample_input_def Mace4_input_content_def by (rule py_in_join [rotated])
  qed
  have r: "rstrip_dot ''P(b)'' = ''P(b)''" by (simp add: rstrip_dot_def)
  have pb: "py_in ''-((P(b)))'' (find_counterexample_input premises ''P(b)'' dsize)"
  proof -
    from i [of "''P(b)''"] r
    obtain a b where "find_counterexample_input premises ''P(b)'' dsize = a @ ''-((P(b))).'' @ b"
      unfolding py_in_iff by auto
    then have "find_counterexample_input premises ''P(b)'' dsize = a @ ''-((P(b)))'' @ (''.'' @ b)"
      by simp
    then show ?thesis unfolding py_in_iff by blast
  qed
  have l: "list_all (\<lambda>f. CHR 0x0A \<notin> set f) (goal # premises) \<longrightarrow>
            split_sep nl (find_counterexample_input premises goal dsize) =
              Mace4_content premises (Some goal) dsize"
    unfolding find_counterexample_input_def by (auto intro: Mace4_lines)
  from c [OF assms] c [of "''P(b)''"] i [OF assms] l pb r
    rstrip_dot_decomp [of goal] rstrip_dot_no_period [of goal]
  show ?thesis by simp
qed

theorem counterexample_goal_negated_witness:
  "''P(b).'' \<noteq> []
   \<and> list_all (\<lambda>f. CHR 0x0A \<notin> set f) [''P(b).'', ''P(a)'']
   \<and> Mace4_content [''P(a)''] (Some ''P(b).'') (Some 2) =
       [''assign(domain_size, 2).'', ''assign(max_seconds, 60).'', '''',
        ''formulas(assumptions).'', ''P(a).'', ''end_of_list.'', '''',
        ''formulas(goals).'', ''-((P(b))).'', ''end_of_list.'']
   \<and> py_in ''-((P(b))).'' (find_counterexample_input [''P(a)''] ''P(b).'' (Some 2))
   \<and> split_sep nl (find_counterexample_input [''P(a)''] ''P(b).'' (Some 2)) =
       [''assign(domain_size, 2).'', ''assign(max_seconds, 60).'', '''',
        ''formulas(assumptions).'', ''P(a).'', ''end_of_list.'', '''',
        ''formulas(goals).'', ''-((P(b))).'', ''end_of_list.'']"
proof -
  have s: "str_int 2 = ''2''" by code_simp
  have r: "rstrip_dot ''P(b).'' = ''P(b)''" by (simp add: rstrip_dot_def)
  have w: "with_period ''P(a)'' = ''P(a).''" by (simp add: with_period_def endswith_single)
  have n: "Mace4_content [''P(a)''] None (Some 2) =
      [''assign(domain_size, 2).'', ''assign(max_seconds, 60).'', '''',
       ''formulas(assumptions).'', ''P(a).'', ''end_of_list.'', '''']"
    by (simp add: Mace4_content_def s w)
  show ?thesis
    using counterexample_goal_negated [of "''P(b).''" "[''P(a)'']" "Some 2"]
    by (simp add: r n)
qed

text \<open>
  The claim as stated fails for the empty goal: \<open>if goal:\<close> treats it as no goal, so
  \<open>find_counterexample\<close> with the conclusion \<open>""\<close> builds an input with no goals block
  and no negated line.
\<close>

theorem empty_goal_counterexample:
  "''formulas(goals).'' \<notin> set (Mace4_content [''P(a)''] (Some '''') (Some 2))
   \<and> ''-(()).'' \<notin> set (Mace4_content [''P(a)''] (Some '''') (Some 2))
   \<and> split_sep nl (find_counterexample_input [''P(a)''] '''' (Some 2)) =
       [''assign(domain_size, 2).'', ''assign(max_seconds, 60).'', '''',
        ''formulas(assumptions).'', ''P(a).'', ''end_of_list.'', '''']"
proof -
  have s: "str_int 2 = ''2''" by code_simp
  have w: "with_period ''P(a)'' = ''P(a).''" by (simp add: with_period_def endswith_single)
  have n: "Mace4_content [''P(a)''] (Some '''') (Some 2) =
      [''assign(domain_size, 2).'', ''assign(max_seconds, 60).'', '''',
       ''formulas(assumptions).'', ''P(a).'', ''end_of_list.'', '''']"
    by (simp add: Mace4_content_def s w)
  have "split_sep nl (find_counterexample_input [''P(a)''] '''' (Some 2)) =
      Mace4_content [''P(a)''] (Some '''') (Some 2)"
    unfolding find_counterexample_input_def by (rule Mace4_lines) simp_all
  with n show ?thesis by simp
qed

section \<open>Classification of the prover's output\<close>

text \<open>
  C2, in the form that holds of the code.
  When the solver run completes with the streams \<open>out\<close> and \<open>err\<close>, the
  result of \<open>_run_prover\<close> is decided by the first marker that matches, in the order
  \<open>THEOREM PROVED\<close> in \<open>out\<close>, \<open>SEARCH FAILED\<close> in \<open>out\<close>, \<open>Fatal error\<close> in \<open>err\<close>, and
  the unexpected-output error last.  The first branch gives the outcome \<open>proved\<close> when
  \<open>out\<close> also contains \<open>PROOF =\<close>, whatever \<open>err\<close> holds, and otherwise the outcome
  \<open>error\<close> with the text of the \<open>IndexError\<close> as reason; the later markers are not
  consulted in either case.
\<close>

theorem prover_classification_order:
  assumes "spawn w = (Inr \<lparr>stdout = out, stderr = err\<rparr>, w1)"
  shows "fst (LogicEngine_run_prover spawn p t w) =
     (if py_in ''THEOREM PROVED'' out then
        (case find_idx ''PROOF ='' out of
           None \<Rightarrow> Inr [(''result'', ''error''), (''reason'', ''list index out of range'')]
         | Some i \<Rightarrow>
             Inr [(''result'', ''proved''),
                  (''proof'', strip (text_before ''====''
                     (text_before ''PROOF ='' (drop (i + length ''PROOF ='') out)))),
                  (''complete_output'', out)])
      else if py_in ''SEARCH FAILED'' out then
        Inr [(''result'', ''unprovable''), (''reason'', ''Proof search failed''),
             (''complete_output'', out)]
      else if py_in ''Fatal error'' err then
        Inr [(''result'', ''error''), (''reason'', ''Syntax error''), (''error'', err)]
      else
        Inr [(''result'', ''error''), (''reason'', ''Unexpected output''),
             (''output'', out), (''error'', err)])
   \<and> py_in ''PROOF ='' out = (find_idx ''PROOF ='' out \<noteq> None)"
proof -
  have e: "py_in ''PROOF ='' out = (find_idx ''PROOF ='' out \<noteq> None)"
    using find_idx_None_iff [of "''PROOF =''" out] by simp
  have r: "fst (LogicEngine_run_prover spawn p t w) =
      (case classify_prover out err of Inl e \<Rightarrow> run_prover_except t e | Inr d \<Rightarrow> Inr d)"
    using prover_body_completed [of spawn w "\<lparr>stdout = out, stderr = err\<rparr>" w1 t] assms
    by (simp add: run_prover_eq)
  show ?thesis
  proof (cases "py_in ''THEOREM PROVED'' out")
    case True
    note tp = this
    show ?thesis
    proof (cases "find_idx ''PROOF ='' out")
      case None
      then have "classify_prover out err = Inl (Exn IndexError ''list index out of range'')"
        by (simp add: classify_prover_proved [OF tp])
      with None show ?thesis using tp r e by (simp add: run_prover_except_def)
    next
      case (Some i)
      then have "classify_prover out err =
          Inr [(''result'', ''proved''),
               (''proof'', strip (text_before ''===='' (text_before ''PROOF =''
                              (drop (i + length ''PROOF ='') out)))),
               (''complete_output'', out)]"
        by (simp add: classify_prover_proved [OF tp])
      with Some show ?thesis using tp r e by simp
    qed
  next
    case False
    with r e show ?thesis by (simp add: classify_prover_def)
  qed
qed

theorem prover_classification_order_witness:
  "solver_prints ''THEOREM PROVED PROOF = 1 p. ===='' ''Fatal error'' (world_with [] []) =
     (Inr \<lparr>stdout = ''THEOREM PROVED PROOF = 1 p. ===='', stderr = ''Fatal error''\<rparr>,
      world_with [] [])
   \<and> fst (LogicEngine_run_prover
            (solver_prints ''THEOREM PROVED PROOF = 1 p. ===='' ''Fatal error'')
            [''tmp'', ''a.in''] 60 (world_with [] [])) =
       Inr [(''result'', ''proved''), (''proof'', ''1 p.''),
            (''complete_output'', ''THEOREM PROVED PROOF = 1 p. ===='')]
   \<and> py_in ''Fatal error'' ''Fatal error''"
proof -
  have a: "py_in ''THEOREM PROVED'' ''THEOREM PROVED PROOF = 1 p. ====''" by code_simp
  have b: "find_idx ''PROOF ='' ''THEOREM PROVED PROOF = 1 p. ===='' = Some 15" by code_simp
  have c: "strip (text_before ''===='' (text_before ''PROOF =''
      (drop (15 + length ''PROOF ='') ''THEOREM PROVED PROOF = 1 p. ===='')))  = ''1 p.''"
    by code_simp
  have d: "py_in ''Fatal error'' ''Fatal error''" by code_simp
  have s: "solver_prints ''THEOREM PROVED PROOF = 1 p. ===='' ''Fatal error'' (world_with [] []) =
     (Inr \<lparr>stdout = ''THEOREM PROVED PROOF = 1 p. ===='', stderr = ''Fatal error''\<rparr>,
      world_with [] [])"
    by (simp add: solver_prints_def)
  from prover_classification_order
    [of "solver_prints ''THEOREM PROVED PROOF = 1 p. ===='' ''Fatal error''" "world_with [] []"
        "''THEOREM PROVED PROOF = 1 p. ====''" "''Fatal error''" "world_with [] []"
        "[''tmp'', ''a.in'']" 60] a b c d s
  show ?thesis by simp
qed

text \<open>
  The claim as stated fails for an output with \<open>THEOREM PROVED\<close> and no \<open>PROOF =\<close>: the
  classification raises \<open>IndexError\<close>, and the handler turns it into the outcome \<open>error\<close>.
\<close>

theorem theorem_proved_without_proof_counterexample:
  "py_in ''THEOREM PROVED'' ''THEOREM PROVED''
   \<and> classify_prover ''THEOREM PROVED'' '''' = Inl (Exn IndexError ''list index out of range'')
   \<and> fst (LogicEngine_run_prover (solver_prints ''THEOREM PROVED'' '''') [''tmp'', ''a.in''] 60
           (world_with [] [])) =
       Inr [(''result'', ''error''), (''reason'', ''list index out of range'')]"
proof -
  have a: "py_in ''THEOREM PROVED'' ''THEOREM PROVED''" by code_simp
  have "find_idx ''PROOF ='' ''THEOREM PROVED'' = None" by code_simp
  then have c: "classify_prover ''THEOREM PROVED'' '''' =
      Inl (Exn IndexError ''list index out of range'')"
    by (simp add: classify_prover_proved [OF a])
  have s: "solver_prints ''THEOREM PROVED'' '''' (world_with [] []) =
      (Inr \<lparr>stdout = ''THEOREM PROVED'', stderr = ''''\<rparr>, world_with [] [])"
    by (simp add: solver_prints_def)
  from prover_body_completed
    [of "solver_prints ''THEOREM PROVED'' ''''" "world_with [] []"
        "\<lparr>stdout = ''THEOREM PROVED'', stderr = ''''\<rparr>" "world_with [] []" 60] s c a
  show ?thesis
    by (simp add: run_prover_eq run_prover_except_def)
qed

text \<open>
  C3, in the form that holds of the code.
  For an output \<open>out\<close> with \<open>THEOREM PROVED\<close>: if \<open>PROOF =\<close> does not
  occur in \<open>out\<close>, the outcome is \<open>error\<close> with the reason \<open>list index out of range\<close>; if
  its first occurrence is at position \<open>i\<close>, the outcome is \<open>proved\<close>, and the proof is the
  text behind that occurrence up to the next \<open>PROOF =\<close>, cut again at its first \<open>====\<close>,
  or not cut where there is none, and trimmed of surrounding whitespace.  A missing
  \<open>====\<close> is not detected.
\<close>

theorem proof_extraction:
  assumes "py_in ''THEOREM PROVED'' out"
    and "spawn w = (Inr \<lparr>stdout = out, stderr = err\<rparr>, w1)"
  shows "(\<not> py_in ''PROOF ='' out \<longrightarrow>
            fst (LogicEngine_run_prover spawn p t w) =
              Inr [(''result'', ''error''), (''reason'', ''list index out of range'')])
       \<and> (py_in ''PROOF ='' out \<longrightarrow> (\<exists>i. find_idx ''PROOF ='' out = Some i))
       \<and> (\<forall>i. find_idx ''PROOF ='' out = Some i \<longrightarrow>
            out = take i out @ ''PROOF ='' @ drop (i + length ''PROOF ='') out
            \<and> (\<forall>j<i. \<not> startswith (drop j out) ''PROOF ='')
            \<and> fst (LogicEngine_run_prover spawn p t w) =
                Inr [(''result'', ''proved''),
                     (''proof'', strip (text_before ''====''
                        (text_before ''PROOF ='' (drop (i + length ''PROOF ='') out)))),
                     (''complete_output'', out)])"
proof -
  have r: "fst (LogicEngine_run_prover spawn p t w) =
      (case classify_prover out err of Inl e \<Rightarrow> run_prover_except t e | Inr d \<Rightarrow> Inr d)"
    using prover_body_completed [of spawn w "\<lparr>stdout = out, stderr = err\<rparr>" w1 t] assms(2)
    by (simp add: run_prover_eq)
  have c: "classify_prover out err =
     (case find_idx ''PROOF ='' out of
        None \<Rightarrow> Inl (Exn IndexError ''list index out of range'')
      | Some i \<Rightarrow>
          Inr [(''result'', ''proved''),
               (''proof'', strip (text_before ''====''
                  (text_before ''PROOF ='' (drop (i + length ''PROOF ='') out)))),
               (''complete_output'', out)])"
    using assms(1) by (rule classify_prover_proved)
  have 1: "\<not> py_in ''PROOF ='' out \<longrightarrow>
            fst (LogicEngine_run_prover spawn p t w) =
              Inr [(''result'', ''error''), (''reason'', ''list index out of range'')]"
    using r c by (simp add: find_idx_None_iff [symmetric] run_prover_except_def)
  have 2: "py_in ''PROOF ='' out \<longrightarrow> (\<exists>i. find_idx ''PROOF ='' out = Some i)"
    using find_idx_None_iff [of "''PROOF =''" out] by auto
  have 3: "\<forall>i. find_idx ''PROOF ='' out = Some i \<longrightarrow>
            out = take i out @ ''PROOF ='' @ drop (i + length ''PROOF ='') out
            \<and> (\<forall>j<i. \<not> startswith (drop j out) ''PROOF ='')
            \<and> fst (LogicEngine_run_prover spawn p t w) =
                Inr [(''result'', ''proved''),
                     (''proof'', strip (text_before ''====''
                        (text_before ''PROOF ='' (drop (i + length ''PROOF ='') out)))),
                     (''complete_output'', out)]"
  proof (rule allI, rule impI)
    fix i
    assume f: "find_idx ''PROOF ='' out = Some i"
    have d: "out = take i out @ ''PROOF ='' @ drop (i + length ''PROOF ='') out"
      using f by (rule find_idx_decomp)
    have l: "\<forall>j<i. \<not> startswith (drop j out) ''PROOF =''"
      using find_idx_least [OF f] by blast
    have "fst (LogicEngine_run_prover spawn p t w) =
                Inr [(''result'', ''proved''),
                     (''proof'', strip (text_before ''====''
                        (text_before ''PROOF ='' (drop (i + length ''PROOF ='') out)))),
                     (''complete_output'', out)]"
      using r c f by simp
    with d l show "out = take i out @ ''PROOF ='' @ drop (i + length ''PROOF ='') out
            \<and> (\<forall>j<i. \<not> startswith (drop j out) ''PROOF ='')
            \<and> fst (LogicEngine_run_prover spawn p t w) =
                Inr [(''result'', ''proved''),
                     (''proof'', strip (text_before ''====''
                        (text_before ''PROOF ='' (drop (i + length ''PROOF ='') out)))),
                     (''complete_output'', out)]"
      by blast
  qed
  from 1 2 3 show ?thesis by blast
qed

theorem proof_extraction_witness:
  "py_in ''THEOREM PROVED'' ''THEOREM PROVED PROOF = 1 p. ==== end''
   \<and> solver_prints ''THEOREM PROVED PROOF = 1 p. ==== end'' '''' (world_with [] []) =
       (Inr \<lparr>stdout = ''THEOREM PROVED PROOF = 1 p. ==== end'', stderr = ''''\<rparr>,
        world_with [] [])
   \<and> py_in ''PROOF ='' ''THEOREM PROVED PROOF = 1 p. ==== end''
   \<and> find_idx ''PROOF ='' ''THEOREM PROVED PROOF = 1 p. ==== end'' = Some 15
   \<and> fst (LogicEngine_run_prover (solver_prints ''THEOREM PROVED PROOF = 1 p. ==== end'' '''')
           [''tmp'', ''a.in''] 60 (world_with [] [])) =
       Inr [(''result'', ''proved''), (''proof'', ''1 p.''),
            (''complete_output'', ''THEOREM PROVED PROOF = 1 p. ==== end'')]
   \<and> py_in ''THEOREM PROVED'' ''THEOREM PROVED (no trace)''
   \<and> \<not> py_in ''PROOF ='' ''THEOREM PROVED (no trace)''
   \<and> fst (LogicEngine_run_prover (solver_prints ''THEOREM PROVED (no trace)'' '''')
           [''tmp'', ''a.in''] 60 (world_with [] [])) =
       Inr [(''result'', ''error''), (''reason'', ''list index out of range'')]"
proof -
  have a2: "py_in ''THEOREM PROVED'' ''THEOREM PROVED (no trace)''" by code_simp
  have b2: "\<not> py_in ''PROOF ='' ''THEOREM PROVED (no trace)''" by code_simp
  have s2: "solver_prints ''THEOREM PROVED (no trace)'' '''' (world_with [] []) =
       (Inr \<lparr>stdout = ''THEOREM PROVED (no trace)'', stderr = ''''\<rparr>, world_with [] [])"
    by (simp add: solver_prints_def)
  from proof_extraction
    [of "''THEOREM PROVED (no trace)''"
        "solver_prints ''THEOREM PROVED (no trace)'' ''''" "world_with [] []"
        "''''" "world_with [] []" "[''tmp'', ''a.in'']" 60] a2 s2 b2
  have r2: "fst (LogicEngine_run_prover (solver_prints ''THEOREM PROVED (no trace)'' '''')
           [''tmp'', ''a.in''] 60 (world_with [] [])) =
       Inr [(''result'', ''error''), (''reason'', ''list index out of range'')]"
    by blast
  have a: "py_in ''THEOREM PROVED'' ''THEOREM PROVED PROOF = 1 p. ==== end''" by code_simp
  have b: "py_in ''PROOF ='' ''THEOREM PROVED PROOF = 1 p. ==== end''" by code_simp
  have f: "find_idx ''PROOF ='' ''THEOREM PROVED PROOF = 1 p. ==== end'' = Some 15" by code_simp
  have e: "strip (text_before ''====''
      (text_before ''PROOF ='' (drop (15 + length ''PROOF ='')
         ''THEOREM PROVED PROOF = 1 p. ==== end''))) = ''1 p.''"
    by code_simp
  have s: "solver_prints ''THEOREM PROVED PROOF = 1 p. ==== end'' '''' (world_with [] []) =
       (Inr \<lparr>stdout = ''THEOREM PROVED PROOF = 1 p. ==== end'', stderr = ''''\<rparr>,
        world_with [] [])"
    by (simp add: solver_prints_def)
  from proof_extraction
    [of "''THEOREM PROVED PROOF = 1 p. ==== end''"
        "solver_prints ''THEOREM PROVED PROOF = 1 p. ==== end'' ''''" "world_with [] []"
        "''''" "world_with [] []" "[''tmp'', ''a.in'']" 60] a s f e
  have "fst (LogicEngine_run_prover (solver_prints ''THEOREM PROVED PROOF = 1 p. ==== end'' '''')
           [''tmp'', ''a.in''] 60 (world_with [] [])) =
       Inr [(''result'', ''proved''), (''proof'', ''1 p.''),
            (''complete_output'', ''THEOREM PROVED PROOF = 1 p. ==== end'')]"
    by simp
  with a b f s a2 b2 r2 show ?thesis by simp
qed

text \<open>
  The claim as stated fails when the \<open>====\<close> delimiter cannot be located: the outcome is
  \<open>proved\<close>, with everything behind \<open>PROOF =\<close> as the proof.
\<close>

theorem missing_delimiter_counterexample:
  "py_in ''THEOREM PROVED'' ''THEOREM PROVED PROOF = abc''
   \<and> \<not> py_in ''===='' ''THEOREM PROVED PROOF = abc''
   \<and> classify_prover ''THEOREM PROVED PROOF = abc'' '''' =
       Inr [(''result'', ''proved''), (''proof'', ''abc''),
            (''complete_output'', ''THEOREM PROVED PROOF = abc'')]"
proof -
  have a: "py_in ''THEOREM PROVED'' ''THEOREM PROVED PROOF = abc''" by code_simp
  have b: "\<not> py_in ''===='' ''THEOREM PROVED PROOF = abc''" by code_simp
  have f: "find_idx ''PROOF ='' ''THEOREM PROVED PROOF = abc'' = Some 15" by code_simp
  have e: "strip (text_before ''====''
      (text_before ''PROOF ='' (drop (15 + length ''PROOF ='') ''THEOREM PROVED PROOF = abc''))) =
      ''abc''"
    by code_simp
  from classify_prover_proved [OF a, of "''''"] f e a b show ?thesis by simp
qed

section \<open>Cleanup, timeouts and failed invocations\<close>

text \<open>
  C4.  Whatever the solver run does (\<open>spawn\<close> is arbitrary: it may return any streams,
  raise \<open>TimeoutExpired\<close> or raise any other exception, and may change the world),
  \<open>_run_prover\<close> and \<open>_run_mace4\<close> return a result and never raise; the result is the one
  the \<open>try\<close>/\<open>except\<close> part produced, untouched by the cleanup; and the cleanup has run
  on the world the solver left: the input file is gone afterwards unless it existed and
  the operating system refused to remove it, in which case the failure is swallowed and
  the world is left as it was.
\<close>

theorem cleanup_on_every_path:
  "(\<exists>d. fst (LogicEngine_run_prover spawn p t w) = Inr d)
   \<and> fst (LogicEngine_run_prover spawn p t w) =
       fst (try_except (run_prover_try spawn) (run_prover_except t) w)
   \<and> files (snd (LogicEngine_run_prover spawn p t w)) =
       (if path_exists (snd (spawn w)) p \<and> p \<notin> undeletable (snd (spawn w))
        then (files (snd (spawn w)))(p := None) else files (snd (spawn w)))
   \<and> path_exists (snd (LogicEngine_run_prover spawn p t w)) p =
       (path_exists (snd (spawn w)) p \<and> p \<in> undeletable (snd (spawn w)))
   \<and> (\<exists>d. fst (Mace4Wrapper_run_mace4 spawn p t w) = Inr d)
   \<and> fst (Mace4Wrapper_run_mace4 spawn p t w) =
       fst (try_except (run_mace4_try spawn) (run_mace4_except t) w)
   \<and> files (snd (Mace4Wrapper_run_mace4 spawn p t w)) =
       (if path_exists (snd (spawn w)) p \<and> p \<notin> undeletable (snd (spawn w))
        then (files (snd (spawn w)))(p := None) else files (snd (spawn w)))
   \<and> path_exists (snd (Mace4Wrapper_run_mace4 spawn p t w)) p =
       (path_exists (snd (spawn w)) p \<and> p \<in> undeletable (snd (spawn w)))"
proof -
  have 1: "\<exists>d. fst (LogicEngine_run_prover spawn p t w) = Inr d"
    using prover_body_returns [of spawn t w] by (simp add: run_prover_eq)
  have 2: "fst (LogicEngine_run_prover spawn p t w) =
       fst (try_except (run_prover_try spawn) (run_prover_except t) w)"
    by (simp add: run_prover_eq)
  have 3: "files (snd (LogicEngine_run_prover spawn p t w)) =
       (if path_exists (snd (spawn w)) p \<and> p \<notin> undeletable (snd (spawn w))
        then (files (snd (spawn w)))(p := None) else files (snd (spawn w)))"
    by (simp add: run_prover_eq prover_body_world unlink_files path_exists_def)
  have 4: "\<exists>d. fst (Mace4Wrapper_run_mace4 spawn p t w) = Inr d"
    using mace4_body_returns [of spawn t w] by (simp add: run_mace4_eq)
  have 5: "fst (Mace4Wrapper_run_mace4 spawn p t w) =
       fst (try_except (run_mace4_try spawn) (run_mace4_except t) w)"
    by (simp add: run_mace4_eq)
  have 6: "files (snd (Mace4Wrapper_run_mace4 spawn p t w)) =
       (if path_exists (snd (spawn w)) p \<and> p \<notin> undeletable (snd (spawn w))
        then (files (snd (spawn w)))(p := None) else files (snd (spawn w)))"
    by (simp add: run_mace4_eq mace4_body_world unlink_files path_exists_def)
  have 7: "path_exists (snd (LogicEngine_run_prover spawn p t w)) p =
       (path_exists (snd (spawn w)) p \<and> p \<in> undeletable (snd (spawn w)))"
    unfolding path_exists_def 3 by (auto simp: path_exists_def)
  have 8: "path_exists (snd (Mace4Wrapper_run_mace4 spawn p t w)) p =
       (path_exists (snd (spawn w)) p \<and> p \<in> undeletable (snd (spawn w)))"
    unfolding path_exists_def 6 by (auto simp: path_exists_def)
  from 1 2 3 4 5 6 7 8 show ?thesis by blast
qed

text \<open>
  C5.  When the solver run raises \<open>TimeoutExpired\<close>, the result is tagged \<open>timeout\<close> and
  its reason carries the timeout value; when it raises an exception of any other class,
  the result is tagged \<open>error\<close> and its reason is the text of the exception.
\<close>

theorem timeout_and_failure_outcomes:
  "(spawn w = (Inl (Exn TimeoutExpired msg), w1) \<longrightarrow>
      fst (LogicEngine_run_prover spawn p t w) =
        Inr [(''result'', ''timeout''),
             (''reason'', ''Proof search exceeded '' @ str_int t @ '' seconds'')]
      \<and> fst (Mace4Wrapper_run_mace4 spawn p t w) =
        Inr [(''result'', Str ''timeout''),
             (''reason'', Str (''Model search exceeded '' @ str_int t @ '' seconds''))])
   \<and> (spawn w = (Inl (Exn c msg), w1) \<and> c \<noteq> TimeoutExpired \<longrightarrow>
      fst (LogicEngine_run_prover spawn p t w) =
        Inr [(''result'', ''error''), (''reason'', msg)]
      \<and> fst (Mace4Wrapper_run_mace4 spawn p t w) =
        Inr [(''result'', Str ''error''), (''reason'', Str msg)])"
proof -
  have a: "\<And>e. spawn w = (Inl e, w1) \<Longrightarrow>
      fst (LogicEngine_run_prover spawn p t w) = run_prover_except t e"
    using prover_body_raised [of spawn w _ w1 t] by (simp add: run_prover_eq)
  have b: "\<And>e. spawn w = (Inl e, w1) \<Longrightarrow>
      fst (Mace4Wrapper_run_mace4 spawn p t w) = run_mace4_except t e"
    using mace4_body_raised [of spawn w _ w1 t] by (simp add: run_mace4_eq)
  show ?thesis
    using a b by (simp add: run_prover_except_def run_mace4_except_def)
qed

theorem timeout_and_failure_outcomes_witness:
  "solver_raises (Exn TimeoutExpired ''timed out after 60 seconds'') (world_with [] []) =
     (Inl (Exn TimeoutExpired ''timed out after 60 seconds''), world_with [] [])
   \<and> fst (LogicEngine_run_prover (solver_raises (Exn TimeoutExpired ''timed out after 60 seconds''))
           [''tmp'', ''a.in''] 60 (world_with [] [])) =
       Inr [(''result'', ''timeout''), (''reason'', ''Proof search exceeded 60 seconds'')]
   \<and> fst (Mace4Wrapper_run_mace4 (solver_raises (Exn TimeoutExpired ''timed out after 60 seconds''))
           [''tmp'', ''a.in''] 60 (world_with [] [])) =
       Inr [(''result'', Str ''timeout''), (''reason'', Str ''Model search exceeded 60 seconds'')]
   \<and> solver_raises (Exn OSError ''Exec format error'') (world_with [] []) =
     (Inl (Exn OSError ''Exec format error''), world_with [] [])
   \<and> OSError \<noteq> TimeoutExpired
   \<and> fst (LogicEngine_run_prover (solver_raises (Exn OSError ''Exec format error''))
           [''tmp'', ''a.in''] 60 (world_with [] [])) =
       Inr [(''result'', ''error''), (''reason'', ''Exec format error'')]
   \<and> fst (Mace4Wrapper_run_mace4 (solver_raises (Exn OSError ''Exec format error''))
           [''tmp'', ''a.in''] 60 (world_with [] [])) =
       Inr [(''result'', Str ''error''), (''reason'', Str ''Exec format error'')]"
proof -
  have s: "str_int 60 = ''60''" by code_simp
  have 1: "solver_raises (Exn TimeoutExpired ''timed out after 60 seconds'') (world_with [] []) =
     (Inl (Exn TimeoutExpired ''timed out after 60 seconds''), world_with [] [])"
    by (simp add: solver_raises_def)
  have 2: "solver_raises (Exn OSError ''Exec format error'') (world_with [] []) =
     (Inl (Exn OSError ''Exec format error''), world_with [] [])"
    by (simp add: solver_raises_def)
  from timeout_and_failure_outcomes
    [of "solver_raises (Exn TimeoutExpired ''timed out after 60 seconds'')" "world_with [] []"
        "''timed out after 60 seconds''" "world_with [] []" "[''tmp'', ''a.in'']" 60
        TimeoutExpired]
    timeout_and_failure_outcomes
    [of "solver_raises (Exn OSError ''Exec format error'')" "world_with [] []"
        "''Exec format error''" "world_with [] []" "[''tmp'', ''a.in'']" 60 OSError]
    1 2 s
  show ?thesis by simp
qed

section \<open>The validity flag of check-well-formed\<close>

text \<open>
  C10.  When the input file can be created, a check-well-formed invocation writes the
  statements with the goal \<open>true\<close>, runs the prover on that file with a timeout of 5, and
  answers with the prover's result and a validity flag; the flag is true exactly when
  \<open>Fatal error\<close> does not occur in the \<open>error\<close> entry of that result (an absent entry
  counting as empty).  Hence the flag is false only for a completed run that is classified
  as a syntax error; a run that times out, a run whose launch or classification raises,
  and a run that ends proved, unprovable or with unexpected output are all reported as
  valid.  When the file cannot be created or written, the answer is the text of the
  exception and carries no flag.
\<close>

theorem well_formed_flag:
  assumes "w1 = snd (LogicEngine_create_input_file statements ''true'' (Written tmp) w)"
  shows "files w1 tmp = Some (LogicEngine_input_content statements ''true'')
   \<and> (\<exists>results. fst (LogicEngine_run_prover spawn tmp 5 w1) = Inr results
         \<and> check_well_formed statements (Written tmp) spawn w =
             (Checked (\<not> py_in ''Fatal error'' (dict_get results ''error'' '''')) results,
              snd (LogicEngine_run_prover spawn tmp 5 w1)))
   \<and> (spawn w1 = (Inl (Exn TimeoutExpired msg), w2) \<longrightarrow>
       fst (check_well_formed statements (Written tmp) spawn w) =
         Checked True [(''result'', ''timeout''),
                       (''reason'', ''Proof search exceeded '' @ str_int 5 @ '' seconds'')])
   \<and> (spawn w1 = (Inl (Exn c msg), w2) \<and> c \<noteq> TimeoutExpired \<longrightarrow>
       fst (check_well_formed statements (Written tmp) spawn w) =
         Checked True [(''result'', ''error''), (''reason'', msg)])
   \<and> (spawn w1 = (Inr \<lparr>stdout = out, stderr = err\<rparr>, w2) \<longrightarrow>
       fst (check_well_formed statements (Written tmp) spawn w) =
         (if py_in ''THEOREM PROVED'' out then
            Checked True
              (case find_idx ''PROOF ='' out of
                 None \<Rightarrow> [(''result'', ''error''), (''reason'', ''list index out of range'')]
               | Some i \<Rightarrow>
                   [(''result'', ''proved''),
                    (''proof'', strip (text_before ''====''
                       (text_before ''PROOF ='' (drop (i + length ''PROOF ='') out)))),
                    (''complete_output'', out)])
          else if py_in ''SEARCH FAILED'' out then
            Checked True [(''result'', ''unprovable''), (''reason'', ''Proof search failed''),
                          (''complete_output'', out)]
          else if py_in ''Fatal error'' err then
            Checked False [(''result'', ''error''), (''reason'', ''Syntax error''),
                           (''error'', err)]
          else
            Checked True [(''result'', ''error''), (''reason'', ''Unexpected output''),
                          (''output'', out), (''error'', err)]))
   \<and> check_well_formed statements (MkstempRaises e) spawn w =
       (ErrorText (''Error: '' @ exn_str e), w)
   \<and> check_well_formed statements (WriteRaises tmp part e) spawn w =
       (ErrorText (''Error: '' @ exn_str e), w\<lparr>files := (files w)(tmp \<mapsto> part)\<rparr>)"
proof -
  have cr: "LogicEngine_create_input_file statements ''true'' (Written tmp) w = (Inr tmp, w1)"
    unfolding assms by (simp add: LogicEngine_create_input_file_def write_input_file_def)
  have 1: "files w1 tmp = Some (LogicEngine_input_content statements ''true'')"
    unfolding assms by (simp add: LogicEngine_create_input_file_def write_input_file_def)
  obtain d where d: "fst (LogicEngine_run_prover spawn tmp 5 w1) = Inr d"
    using run_prover_returns [of spawn tmp 5 w1] by blast
  then obtain w3 where run: "LogicEngine_run_prover spawn tmp 5 w1 = (Inr d, w3)"
    by (cases "LogicEngine_run_prover spawn tmp 5 w1") simp
  have ch: "check_well_formed statements (Written tmp) spawn w =
      (Checked (\<not> py_in ''Fatal error'' (dict_get d ''error'' '''')) d,
       snd (LogicEngine_run_prover spawn tmp 5 w1))"
    by (simp add: check_well_formed_def cr run)
  have 2: "\<exists>results. fst (LogicEngine_run_prover spawn tmp 5 w1) = Inr results
         \<and> check_well_formed statements (Written tmp) spawn w =
             (Checked (\<not> py_in ''Fatal error'' (dict_get results ''error'' '''')) results,
              snd (LogicEngine_run_prover spawn tmp 5 w1))"
    using d ch by blast
  have 3: "spawn w1 = (Inl (Exn TimeoutExpired msg), w2) \<longrightarrow>
       fst (check_well_formed statements (Written tmp) spawn w) =
         Checked True [(''result'', ''timeout''),
                       (''reason'', ''Proof search exceeded '' @ str_int 5 @ '' seconds'')]"
  proof
    assume "spawn w1 = (Inl (Exn TimeoutExpired msg), w2)"
    from run_prover_raised [of spawn w1 "Exn TimeoutExpired msg" w2 tmp 5, OF this, unfolded d]
    have "d = [(''result'', ''timeout''),
               (''reason'', ''Proof search exceeded '' @ str_int 5 @ '' seconds'')]"
      by (simp add: run_prover_except_def)
    then show "fst (check_well_formed statements (Written tmp) spawn w) =
         Checked True [(''result'', ''timeout''),
                       (''reason'', ''Proof search exceeded '' @ str_int 5 @ '' seconds'')]"
      unfolding ch by (simp add: dict_get_def)
  qed
  have 4: "spawn w1 = (Inl (Exn c msg), w2) \<and> c \<noteq> TimeoutExpired \<longrightarrow>
       fst (check_well_formed statements (Written tmp) spawn w) =
         Checked True [(''result'', ''error''), (''reason'', msg)]"
  proof
    assume h: "spawn w1 = (Inl (Exn c msg), w2) \<and> c \<noteq> TimeoutExpired"
    then have "spawn w1 = (Inl (Exn c msg), w2)" ..
    from run_prover_raised [of spawn w1 "Exn c msg" w2 tmp 5, OF this, unfolded d] h
    have "d = [(''result'', ''error''), (''reason'', msg)]"
      by (simp add: run_prover_except_def)
    then show "fst (check_well_formed statements (Written tmp) spawn w) =
         Checked True [(''result'', ''error''), (''reason'', msg)]"
      unfolding ch by (simp add: dict_get_def)
  qed
  have 5: "spawn w1 = (Inr \<lparr>stdout = out, stderr = err\<rparr>, w2) \<longrightarrow>
       fst (check_well_formed statements (Written tmp) spawn w) =
         (if py_in ''THEOREM PROVED'' out then
            Checked True
              (case find_idx ''PROOF ='' out of
                 None \<Rightarrow> [(''result'', ''error''), (''reason'', ''list index out of range'')]
               | Some i \<Rightarrow>
                   [(''result'', ''proved''),
                    (''proof'', strip (text_before ''====''
                       (text_before ''PROOF ='' (drop (i + length ''PROOF ='') out)))),
                    (''complete_output'', out)])
          else if py_in ''SEARCH FAILED'' out then
            Checked True [(''result'', ''unprovable''), (''reason'', ''Proof search failed''),
                          (''complete_output'', out)]
          else if py_in ''Fatal error'' err then
            Checked False [(''result'', ''error''), (''reason'', ''Syntax error''),
                           (''error'', err)]
          else
            Checked True [(''result'', ''error''), (''reason'', ''Unexpected output''),
                          (''output'', out), (''error'', err)])"
  proof
    assume "spawn w1 = (Inr \<lparr>stdout = out, stderr = err\<rparr>, w2)"
    note eq = run_prover_completed [of spawn w1 out err w2 tmp 5, OF this, unfolded d]
    show "fst (check_well_formed statements (Written tmp) spawn w) =
         (if py_in ''THEOREM PROVED'' out then
            Checked True
              (case find_idx ''PROOF ='' out of
                 None \<Rightarrow> [(''result'', ''error''), (''reason'', ''list index out of range'')]
               | Some i \<Rightarrow>
                   [(''result'', ''proved''),
                    (''proof'', strip (text_before ''====''
                       (text_before ''PROOF ='' (drop (i + length ''PROOF ='') out)))),
                    (''complete_output'', out)])
          else if py_in ''SEARCH FAILED'' out then
            Checked True [(''result'', ''unprovable''), (''reason'', ''Proof search failed''),
                          (''complete_output'', out)]
          else if py_in ''Fatal error'' err then
            Checked False [(''result'', ''error''), (''reason'', ''Syntax error''),
                           (''error'', err)]
          else
            Checked True [(''result'', ''error''), (''reason'', ''Unexpected output''),
                          (''output'', out), (''error'', err)])"
    proof (cases "py_in ''THEOREM PROVED'' out")
        case True
        show ?thesis
        proof (cases "find_idx ''PROOF ='' out")
          case None
          with eq True have "d = [(''result'', ''error''), (''reason'', ''list index out of range'')]"
            by simp
          with True None show ?thesis unfolding ch by (simp add: dict_get_def)
        next
          case (Some i)
          with eq True have "d = [(''result'', ''proved''),
                    (''proof'', strip (text_before ''====''
                       (text_before ''PROOF ='' (drop (i + length ''PROOF ='') out)))),
                    (''complete_output'', out)]"
            by simp
          with True Some show ?thesis unfolding ch by (simp add: dict_get_def)
        qed
      next
        case False
        note tp = this
        show ?thesis
        proof (cases "py_in ''SEARCH FAILED'' out")
          case True
          with eq tp have "d = [(''result'', ''unprovable''), (''reason'', ''Proof search failed''),
                          (''complete_output'', out)]"
            by simp
          with tp True show ?thesis unfolding ch by (simp add: dict_get_def)
        next
          case False
          note sf = this
          show ?thesis
          proof (cases "py_in ''Fatal error'' err")
            case True
            with eq tp sf have "d = [(''result'', ''error''), (''reason'', ''Syntax error''),
                           (''error'', err)]"
              by simp
            with tp sf True show ?thesis unfolding ch by (simp add: dict_get_def)
          next
            case False
            with eq tp sf have "d = [(''result'', ''error''), (''reason'', ''Unexpected output''),
                          (''output'', out), (''error'', err)]"
              by simp
            with tp sf False show ?thesis unfolding ch by (simp add: dict_get_def)
          qed
        qed
      qed
  qed
  have 6: "check_well_formed statements (MkstempRaises e) spawn w =
       (ErrorText (''Error: '' @ exn_str e), w)"
    by (simp add: check_well_formed_def LogicEngine_create_input_file_def write_input_file_def)
  have 7: "check_well_formed statements (WriteRaises tmp part e) spawn w =
       (ErrorText (''Error: '' @ exn_str e), w\<lparr>files := (files w)(tmp \<mapsto> part)\<rparr>)"
    by (simp add: check_well_formed_def LogicEngine_create_input_file_def write_input_file_def)
  show ?thesis by (intro conjI) (fact 1 2 3 4 5 6 7)+
qed

theorem well_formed_flag_witness:
  "solver_raises (Exn TimeoutExpired ''timed out'')
       (snd (LogicEngine_create_input_file [''P(a)''] ''true'' (Written [''tmp'', ''a.in''])
               (world_with [] []))) =
     (Inl (Exn TimeoutExpired ''timed out''),
      snd (LogicEngine_create_input_file [''P(a)''] ''true'' (Written [''tmp'', ''a.in''])
             (world_with [] [])))
   \<and> fst (check_well_formed [''P(a)''] (Written [''tmp'', ''a.in''])
           (solver_raises (Exn TimeoutExpired ''timed out'')) (world_with [] [])) =
       Checked True [(''result'', ''timeout''), (''reason'', ''Proof search exceeded 5 seconds'')]
   \<and> solver_raises (Exn OSError ''Exec format error'')
       (snd (LogicEngine_create_input_file [''P(a)''] ''true'' (Written [''tmp'', ''a.in''])
               (world_with [] []))) =
     (Inl (Exn OSError ''Exec format error''),
      snd (LogicEngine_create_input_file [''P(a)''] ''true'' (Written [''tmp'', ''a.in''])
             (world_with [] [])))
   \<and> OSError \<noteq> TimeoutExpired
   \<and> fst (check_well_formed [''P(a)''] (Written [''tmp'', ''a.in''])
           (solver_raises (Exn OSError ''Exec format error'')) (world_with [] [])) =
       Checked True [(''result'', ''error''), (''reason'', ''Exec format error'')]
   \<and> solver_prints ''SEARCH FAILED'' ''''
       (snd (LogicEngine_create_input_file [''P(a)''] ''true'' (Written [''tmp'', ''a.in''])
               (world_with [] []))) =
     (Inr \<lparr>stdout = ''SEARCH FAILED'', stderr = ''''\<rparr>,
      snd (LogicEngine_create_input_file [''P(a)''] ''true'' (Written [''tmp'', ''a.in''])
             (world_with [] [])))
   \<and> fst (check_well_formed [''P(a)''] (Written [''tmp'', ''a.in''])
           (solver_prints ''SEARCH FAILED'' '''') (world_with [] [])) =
       Checked True [(''result'', ''unprovable''), (''reason'', ''Proof search failed''),
                     (''complete_output'', ''SEARCH FAILED'')]
   \<and> solver_prints ''input'' ''Fatal error: syntax''
       (snd (LogicEngine_create_input_file [''P(a & ''] ''true'' (Written [''tmp'', ''a.in''])
               (world_with [] []))) =
     (Inr \<lparr>stdout = ''input'', stderr = ''Fatal error: syntax''\<rparr>,
      snd (LogicEngine_create_input_file [''P(a & ''] ''true'' (Written [''tmp'', ''a.in''])
             (world_with [] [])))
   \<and> fst (check_well_formed [''P(a & ''] (Written [''tmp'', ''a.in''])
           (solver_prints ''input'' ''Fatal error: syntax'') (world_with [] [])) =
       Checked False [(''result'', ''error''), (''reason'', ''Syntax error''),
                      (''error'', ''Fatal error: syntax'')]"
proof -
  define w1 where
    "w1 = snd (LogicEngine_create_input_file [''P(a)''] ''true'' (Written [''tmp'', ''a.in''])
                 (world_with [] []))"
  define v1 where
    "v1 = snd (LogicEngine_create_input_file [''P(a & ''] ''true'' (Written [''tmp'', ''a.in''])
                 (world_with [] []))"
  have s: "str_int 5 = ''5''" by code_simp
  have a: "\<not> py_in ''THEOREM PROVED'' ''SEARCH FAILED''" by code_simp
  have b: "py_in ''SEARCH FAILED'' ''SEARCH FAILED''" by code_simp
  have c: "\<not> py_in ''THEOREM PROVED'' ''input''" by code_simp
  have d: "\<not> py_in ''SEARCH FAILED'' ''input''" by code_simp
  have e: "py_in ''Fatal error'' ''Fatal error: syntax''" by code_simp
  have 1: "solver_raises (Exn TimeoutExpired ''timed out'') w1 =
      (Inl (Exn TimeoutExpired ''timed out''), w1)"
    by (simp add: solver_raises_def)
  have 2: "solver_raises (Exn OSError ''Exec format error'') w1 =
      (Inl (Exn OSError ''Exec format error''), w1)"
    by (simp add: solver_raises_def)
  have 3: "solver_prints ''SEARCH FAILED'' '''' w1 =
      (Inr \<lparr>stdout = ''SEARCH FAILED'', stderr = ''''\<rparr>, w1)"
    by (simp add: solver_prints_def)
  have 5: "solver_prints ''input'' ''Fatal error: syntax'' v1 =
      (Inr \<lparr>stdout = ''input'', stderr = ''Fatal error: syntax''\<rparr>, v1)"
    by (simp add: solver_prints_def)
  note t1 = well_formed_flag [OF w1_def,
      where spawn = "solver_raises (Exn TimeoutExpired ''timed out'')" and msg = "''timed out''"
        and ?w2.0 = w1,
      THEN conjunct2, THEN conjunct2, THEN conjunct1, rule_format, OF 1]
  note t2 = well_formed_flag [OF w1_def,
      where spawn = "solver_raises (Exn OSError ''Exec format error'')"
        and msg = "''Exec format error''" and c = OSError and ?w2.0 = w1,
      THEN conjunct2, THEN conjunct2, THEN conjunct2, THEN conjunct1]
  note t3 = well_formed_flag [OF w1_def,
      where spawn = "solver_prints ''SEARCH FAILED'' ''''" and out = "''SEARCH FAILED''"
        and err = "''''" and ?w2.0 = w1,
      THEN conjunct2, THEN conjunct2, THEN conjunct2, THEN conjunct2, THEN conjunct1,
      rule_format, OF 3]
  note t4 = well_formed_flag [OF v1_def,
      where spawn = "solver_prints ''input'' ''Fatal error: syntax''" and out = "''input''"
        and err = "''Fatal error: syntax''" and ?w2.0 = v1,
      THEN conjunct2, THEN conjunct2, THEN conjunct2, THEN conjunct2, THEN conjunct1,
      rule_format, OF 5]
  have r1: "fst (check_well_formed [''P(a)''] (Written [''tmp'', ''a.in''])
           (solver_raises (Exn TimeoutExpired ''timed out'')) (world_with [] [])) =
       Checked True [(''result'', ''timeout''), (''reason'', ''Proof search exceeded 5 seconds'')]"
    using t1 s by simp
  have r2: "fst (check_well_formed [''P(a)''] (Written [''tmp'', ''a.in''])
           (solver_raises (Exn OSError ''Exec format error'')) (world_with [] [])) =
       Checked True [(''result'', ''error''), (''reason'', ''Exec format error'')]"
    using t2 2 by simp
  have r3: "fst (check_well_formed [''P(a)''] (Written [''tmp'', ''a.in''])
           (solver_prints ''SEARCH FAILED'' '''') (world_with [] [])) =
       Checked True [(''result'', ''unprovable''), (''reason'', ''Proof search failed''),
                     (''complete_output'', ''SEARCH FAILED'')]"
    using t3 a b by simp
  have r4: "fst (check_well_formed [''P(a & ''] (Written [''tmp'', ''a.in''])
           (solver_prints ''input'' ''Fatal error: syntax'') (world_with [] [])) =
       Checked False [(''result'', ''error''), (''reason'', ''Syntax error''),
                      (''error'', ''Fatal error: syntax'')]"
    using t4 c d e by simp
  have n: "OSError \<noteq> TimeoutExpired" by simp
  note h1 = 1 [unfolded w1_def] and h2 = 2 [unfolded w1_def] and h3 = 3 [unfolded w1_def]
    and h4 = 5 [unfolded v1_def]
  show ?thesis by (intro conjI) (fact h1 h2 h3 h4 r1 r2 r3 r4 n)+
qed

section \<open>Locating the binaries\<close>

text \<open>
  C9.  \<open>Mace4Wrapper.__init__\<close> probes \<open>mace4.exe\<close>, then \<open>mace4\<close>, and raises only when
  neither exists.  \<open>LogicEngine.__init__\<close> probes \<open>prover9.exe\<close> alone: in a directory
  that holds \<open>prover9\<close> and \<open>mace4\<close> without suffix, the model finder's wrapper is
  constructed and the prover's wrapper raises \<open>FileNotFoundError\<close>.
\<close>

theorem binary_probe:
  "Mace4Wrapper_init d w =
     (if path_exists w (d @ [''mace4.exe'']) then Inr (d @ [''mace4.exe''])
      else if path_exists w (d @ [''mace4'']) then Inr (d @ [''mace4''])
      else Inl (Exn FileNotFoundError
             (''Mace4 not found at '' @ path_str (d @ [''mace4'']) @ '' or with .exe extension'')))
   \<and> LogicEngine_init d w =
     (if path_exists w (d @ [''prover9.exe'']) then Inr (d @ [''prover9.exe''])
      else Inl (Exn FileNotFoundError (''Prover9 not found at '' @ path_str (d @ [''prover9.exe'']))))
   \<and> path_exists (world_with [([''ladr'', ''bin'', ''prover9''], ''ELF''),
                               ([''ladr'', ''bin'', ''mace4''], ''ELF'')] [])
        [''ladr'', ''bin'', ''prover9'']
   \<and> Mace4Wrapper_init [''ladr'', ''bin'']
        (world_with [([''ladr'', ''bin'', ''prover9''], ''ELF''),
                     ([''ladr'', ''bin'', ''mace4''], ''ELF'')] []) =
       Inr [''ladr'', ''bin'', ''mace4'']
   \<and> LogicEngine_init [''ladr'', ''bin'']
        (world_with [([''ladr'', ''bin'', ''prover9''], ''ELF''),
                     ([''ladr'', ''bin'', ''mace4''], ''ELF'')] []) =
       Inl (Exn FileNotFoundError ''Prover9 not found at ladr/bin/prover9.exe'')"
  by (simp add: Mace4Wrapper_init_def LogicEngine_init_def path_exists_def world_with_def
        path_str_def Let_def)

section \<open>Parsing the model finder's output\<close>

text \<open>
  C8, in the form that holds of the code.
  An output with both \<open>DOMAIN SIZE\<close> and \<open>interpretation(\<close> is
  classified \<open>model_found\<close>, whatever the parse of the domain size does.  The domain size
  is the integer read from the last whitespace-delimited token of the last line with
  \<open>DOMAIN SIZE\<close> whose token reads as an integer, and it is unset when no such line has
  one.  The raw interpretation is empty when no \<open>end_of_list\<close> follows the first
  \<open>interpretation(\<close>; otherwise it is the text from the first \<open>interpretation(\<close> through
  the first \<open>end_of_list\<close> behind it, trimmed, followed by the function and relation
  lines of that text.
\<close>

theorem model_found_parsing:
  assumes "py_in ''DOMAIN SIZE'' out" and "py_in ''interpretation('' out"
  shows "classify_mace4 out err =
           [(''result'', Str ''model_found''), (''model'', ModelVal (parse_model out)),
            (''complete_output'', Str out)]
       \<and> (spawn w = (Inr \<lparr>stdout = out, stderr = err\<rparr>, w1) \<longrightarrow>
            fst (Mace4Wrapper_run_mace4 spawn p t w) =
              Inr [(''result'', Str ''model_found''), (''model'', ModelVal (parse_model out)),
                   (''complete_output'', Str out)])
       \<and> domain_size (parse_model out) =
           (if domain_size_candidates (split_sep nl out) = [] then None
            else Some (last (domain_size_candidates (split_sep nl out))))
       \<and> (\<exists>i. find_idx ''interpretation('' out = Some i
              \<and> (\<forall>j<i. \<not> startswith (drop j out) ''interpretation('')
              \<and> raw_interpretation (parse_model out) =
                  (case find_idx ''end_of_list'' (drop i out) of
                     None \<Rightarrow> ''''
                   | Some j \<Rightarrow>
                       strip (take (j + length ''end_of_list'') (drop i out)) @
                       relation_lines (take (j + length ''end_of_list'') (drop i out))))"
proof -
  have c: "classify_mace4 out err =
           [(''result'', Str ''model_found''), (''model'', ModelVal (parse_model out)),
            (''complete_output'', Str out)]"
    using assms by (simp add: classify_mace4_def)
  have r: "spawn w = (Inr \<lparr>stdout = out, stderr = err\<rparr>, w1) \<longrightarrow>
            fst (Mace4Wrapper_run_mace4 spawn p t w) = Inr (classify_mace4 out err)"
    using mace4_body_completed [of spawn w "\<lparr>stdout = out, stderr = err\<rparr>" w1 t]
    by (simp add: run_mace4_eq)
  from assms(2) obtain i where i: "find_idx ''interpretation('' out = Some i"
    using find_idx_None_iff [of "''interpretation(''" out] by auto
  have l: "\<forall>j<i. \<not> startswith (drop j out) ''interpretation(''"
    using find_idx_least [OF i] by blast
  from c r i l parse_model_raw [OF i] parse_model_domain_size [of out]
  show ?thesis by auto
qed

theorem model_found_parsing_witness:
  "py_in ''DOMAIN SIZE''
     ''DOMAIN SIZE 2\<newline>interpretation( 2, [\<newline> function(a, [0])\<newline>]).\<newline>end_of_list\<newline>''
   \<and> py_in ''interpretation(''
     ''DOMAIN SIZE 2\<newline>interpretation( 2, [\<newline> function(a, [0])\<newline>]).\<newline>end_of_list\<newline>''
   \<and> classify_mace4
       ''DOMAIN SIZE 2\<newline>interpretation( 2, [\<newline> function(a, [0])\<newline>]).\<newline>end_of_list\<newline>'' '''' =
       [(''result'', Str ''model_found''),
        (''model'', ModelVal
           \<lparr>domain_size = Some 2, model_predicates = [], model_functions = [],
            model_constants = [],
            raw_interpretation =
              ''interpretation( 2, [\<newline> function(a, [0])\<newline>]).\<newline>end_of_list\<newline>function(a, [0])''\<rparr>),
        (''complete_output'', Str
           ''DOMAIN SIZE 2\<newline>interpretation( 2, [\<newline> function(a, [0])\<newline>]).\<newline>end_of_list\<newline>'')]
   \<and> solver_prints 
         ''DOMAIN SIZE 2\<newline>interpretation( 2, [\<newline> function(a, [0])\<newline>]).\<newline>end_of_list\<newline>'' '''' (world_with [] []) =
       (Inr \<lparr>stdout = 
         ''DOMAIN SIZE 2\<newline>interpretation( 2, [\<newline> function(a, [0])\<newline>]).\<newline>end_of_list\<newline>'', stderr = ''''\<rparr>, world_with [] [])
   \<and> fst (Mace4Wrapper_run_mace4 (solver_prints 
         ''DOMAIN SIZE 2\<newline>interpretation( 2, [\<newline> function(a, [0])\<newline>]).\<newline>end_of_list\<newline>'' '''') [''tmp'', ''a.in''] 60 (world_with [] [])) =
       Inr [(''result'', Str ''model_found''),
            (''model'', ModelVal
               \<lparr>domain_size = Some 2, model_predicates = [], model_functions = [],
                model_constants = [],
                raw_interpretation =
                  ''interpretation( 2, [\<newline> function(a, [0])\<newline>]).\<newline>end_of_list\<newline>function(a, [0])''\<rparr>),
            (''complete_output'', Str 
         ''DOMAIN SIZE 2\<newline>interpretation( 2, [\<newline> function(a, [0])\<newline>]).\<newline>end_of_list\<newline>'')]"
proof -
  have s: "solver_prints 
         ''DOMAIN SIZE 2\<newline>interpretation( 2, [\<newline> function(a, [0])\<newline>]).\<newline>end_of_list\<newline>'' '''' (world_with [] []) =
       (Inr \<lparr>stdout = 
         ''DOMAIN SIZE 2\<newline>interpretation( 2, [\<newline> function(a, [0])\<newline>]).\<newline>end_of_list\<newline>'', stderr = ''''\<rparr>, world_with [] [])"
    by (simp add: solver_prints_def)
  have a: "py_in ''DOMAIN SIZE''
     ''DOMAIN SIZE 2\<newline>interpretation( 2, [\<newline> function(a, [0])\<newline>]).\<newline>end_of_list\<newline>''"
    by code_simp
  have b: "py_in ''interpretation(''
     ''DOMAIN SIZE 2\<newline>interpretation( 2, [\<newline> function(a, [0])\<newline>]).\<newline>end_of_list\<newline>''"
    by code_simp
  have m: "parse_model
     ''DOMAIN SIZE 2\<newline>interpretation( 2, [\<newline> function(a, [0])\<newline>]).\<newline>end_of_list\<newline>'' =
      \<lparr>domain_size = Some 2, model_predicates = [], model_functions = [],
       model_constants = [],
       raw_interpretation =
         ''interpretation( 2, [\<newline> function(a, [0])\<newline>]).\<newline>end_of_list\<newline>function(a, [0])''\<rparr>"
    by code_simp
  from model_found_parsing
    [of "''DOMAIN SIZE 2\<newline>interpretation( 2, [\<newline> function(a, [0])\<newline>]).\<newline>end_of_list\<newline>''"
        "''''"
        "solver_prints
          ''DOMAIN SIZE 2\<newline>interpretation( 2, [\<newline> function(a, [0])\<newline>]).\<newline>end_of_list\<newline>'' ''''"
        "world_with [] []" "world_with [] []" "[''tmp'', ''a.in'']" 60] a b m s
  show ?thesis by simp
qed

text \<open>
  The claim as stated fails when several lines carry \<open>DOMAIN SIZE\<close>: the loop has no
  \<open>break\<close>, so the last readable line wins, not the first.  Here the first such line
  reads as 2 and the domain size of the model is 3; and since no \<open>end_of_list\<close> follows
  \<open>interpretation(\<close>, the raw interpretation stays empty.
\<close>

theorem first_domain_size_counterexample:
  "py_in ''DOMAIN SIZE'' ''DOMAIN SIZE 2\<newline>DOMAIN SIZE 3\<newline>interpretation(''
   \<and> py_in ''interpretation('' ''DOMAIN SIZE 2\<newline>DOMAIN SIZE 3\<newline>interpretation(''
   \<and> split_sep nl ''DOMAIN SIZE 2\<newline>DOMAIN SIZE 3\<newline>interpretation('' =
       [''DOMAIN SIZE 2'', ''DOMAIN SIZE 3'', ''interpretation('']
   \<and> py_int (last (split_ws ''DOMAIN SIZE 2'')) = Some 2
   \<and> classify_mace4 ''DOMAIN SIZE 2\<newline>DOMAIN SIZE 3\<newline>interpretation('' '''' =
       [(''result'', Str ''model_found''),
        (''model'', ModelVal
           \<lparr>domain_size = Some 3, model_predicates = [], model_functions = [],
            model_constants = [], raw_interpretation = ''''\<rparr>),
        (''complete_output'', Str ''DOMAIN SIZE 2\<newline>DOMAIN SIZE 3\<newline>interpretation('')]"
proof -
  have a: "py_in ''DOMAIN SIZE'' ''DOMAIN SIZE 2\<newline>DOMAIN SIZE 3\<newline>interpretation(''"
    by code_simp
  have b: "py_in ''interpretation('' ''DOMAIN SIZE 2\<newline>DOMAIN SIZE 3\<newline>interpretation(''"
    by code_simp
  have c: "split_sep nl ''DOMAIN SIZE 2\<newline>DOMAIN SIZE 3\<newline>interpretation('' =
       [''DOMAIN SIZE 2'', ''DOMAIN SIZE 3'', ''interpretation('']"
    by code_simp
  have d: "py_int (last (split_ws ''DOMAIN SIZE 2'')) = Some 2" by code_simp
  have m: "parse_model ''DOMAIN SIZE 2\<newline>DOMAIN SIZE 3\<newline>interpretation('' =
      \<lparr>domain_size = Some 3, model_predicates = [], model_functions = [],
       model_constants = [], raw_interpretation = ''''\<rparr>"
    by code_simp
  from a b c d m show ?thesis by (simp add: classify_mace4_def)
qed

section \<open>Reserved words as predicate names\<close>

text \<open>
  C7, in the form that holds of the code.
  For every formula in which one of the names \<open>true\<close>, \<open>false\<close>,
  \<open>end_of_list\<close> stands as an identifier of its own (at the start of the formula or behind
  a character that is no word character in the sense of \<open>\w\<close>, which counts the accented
  letters too) and is followed, after optional whitespace, by
  an opening parenthesis, \<open>validate\<close> reports the reserved-keyword error for that name and
  returns \<open>is_valid = False\<close>, in either order of visiting the quantifiers.  The names
  \<open>all\<close> and \<open>exists\<close> are skipped by the naming check, which reports nothing for them.
\<close>

theorem reserved_name_rejected:
  assumes "name \<in> {''true'', ''false'', ''end_of_list''}"
    and "formula = a @ name @ ws @ ''('' @ b"
    and "a = [] \<or> \<not> is_word (last a)"
    and "list_all is_space ws"
  shows "sq @ name @ sq @ '' is a reserved keyword and cannot be used as a predicate/function''
           \<in> set (fst (snd (validate order formula)))
       \<and> \<not> fst (validate order formula)
       \<and> naming_step ''all'' v = v \<and> naming_step ''exists'' v = v"
proof -
  have n: "name \<noteq> []" "is_ident_start (hd name)" "\<forall>c \<in> set name. is_ident_char c"
    using assms(1) by (auto simp: char_class_defs)
  have q: "name \<notin> QUANTIFIERS" "name \<in> RESERVED"
    using assms(1) by (auto simp: QUANTIFIERS_def RESERVED_def)
  have ws: "\<forall>c \<in> set ws. is_space c" using assms(4) by (simp add: list_all_iff)
  have "rstrip_dot ((a @ name @ ws) @ CHR ''('' # b) = (a @ name @ ws) @ CHR ''('' # rstrip_dot b"
    by (rule rstrip_dot_keep) simp
  then have clean: "rstrip_dot formula = a @ name @ ws @ CHR ''('' # rstrip_dot b"
    using assms(2) by simp
  have "if a = [] then \<not> False else \<not> is_word (last a)" using assms(3) by auto
  from naming_finditer_finds [OF n ws clean this]
  have found: "name \<in> set (naming_finditer False (rstrip_dot formula))" .
  define v3 where "v3 = check_operators (rstrip_dot formula)
      (check_quantifiers order (rstrip_dot formula)
        (check_balanced_parens (rstrip_dot formula) \<lparr>errors = [], warnings = []\<rparr>))"
  define msg where
    "msg = sq @ name @ sq @ '' is a reserved keyword and cannot be used as a predicate/function''"
  have "msg \<in> set (errors (check_naming (rstrip_dot formula) v3))"
    unfolding check_naming_def msg_def using found q by (rule fold_naming_step_reports)
  then have m: "msg \<in> set (errors (check_common_mistakes (rstrip_dot formula)
      (check_naming (rstrip_dot formula) v3)))"
    by (simp add: check_common_mistakes_errors)
  have val: "validate order formula =
      (length (errors (check_common_mistakes (rstrip_dot formula)
                 (check_naming (rstrip_dot formula) v3))) = 0,
       errors (check_common_mistakes (rstrip_dot formula) (check_naming (rstrip_dot formula) v3)),
       warnings (check_common_mistakes (rstrip_dot formula) (check_naming (rstrip_dot formula) v3)))"
    unfolding validate_def Let_def v3_def by simp
  have skip: "naming_step ''all'' v = v \<and> naming_step ''exists'' v = v"
    by (simp add: naming_step_def QUANTIFIERS_def)
  from m val skip show ?thesis unfolding msg_def by auto
qed

theorem reserved_name_rejected_witness:
  "''true'' \<in> {''true'', ''false'', ''end_of_list''}
   \<and> ''p(x) & true (y).'' = ''p(x) & '' @ ''true'' @ '' '' @ ''('' @ ''y).''
   \<and> \<not> is_word (last ''p(x) & '')
   \<and> list_all is_space '' ''
   \<and> sq @ ''true'' @ sq @ '' is a reserved keyword and cannot be used as a predicate/function''
        \<in> set (fst (snd (validate AllFirst ''p(x) & true (y).'')))
   \<and> \<not> fst (validate AllFirst ''p(x) & true (y).'')
   \<and> validate ExistsFirst ''p(x) & true (y).'' =
       (False,
        [sq @ ''true'' @ sq @ '' is a reserved keyword and cannot be used as a predicate/function''],
        [])"
proof -
  have 1: "''true'' \<in> {''true'', ''false'', ''end_of_list''}" by simp
  have 2: "''p(x) & true (y).'' = ''p(x) & '' @ ''true'' @ '' '' @ ''('' @ ''y).''" by simp
  have 3: "\<not> is_word (last ''p(x) & '')" by (simp add: char_class_defs)
  have 4: "list_all is_space '' ''" by (simp add: char_class_defs)
  have 5: "validate ExistsFirst ''p(x) & true (y).'' =
       (False,
        [sq @ ''true'' @ sq @ '' is a reserved keyword and cannot be used as a predicate/function''],
        [])"
    by code_simp
  from 3 have d: "''p(x) & '' = [] \<or> \<not> is_word (last ''p(x) & '')" by simp
  from reserved_name_rejected [OF 1 2 d 4, of AllFirst]
  have 6: "sq @ ''true'' @ sq @ '' is a reserved keyword and cannot be used as a predicate/function''
        \<in> set (fst (snd (validate AllFirst ''p(x) & true (y).'')))"
    and 7: "\<not> fst (validate AllFirst ''p(x) & true (y).'')"
    by blast+
  show ?thesis by (intro conjI) fact+
qed

text \<open>
  The claim as stated fails for the reserved words \<open>all\<close> and \<open>exists\<close>: the naming check
  skips them (\<open>continue\<close>), and the formula \<open>all(x)\<close> is valid with no error and no
  warning.
\<close>

theorem quantifier_name_counterexample:
  "validate AllFirst ''all(x)'' = (True, [], [])
   \<and> validate ExistsFirst ''all(x)'' = (True, [], [])
   \<and> validate AllFirst ''exists(x)'' = (True, [], [])
   \<and> validate ExistsFirst ''exists(x)'' = (True, [], [])"
proof -
  have 1: "validate AllFirst ''all(x)'' = (True, [], [])" by code_simp
  have 2: "validate ExistsFirst ''all(x)'' = (True, [], [])" by code_simp
  have 3: "validate AllFirst ''exists(x)'' = (True, [], [])" by code_simp
  have 4: "validate ExistsFirst ''exists(x)'' = (True, [], [])" by code_simp
  from 1 2 3 4 show ?thesis by simp
qed

end
